theory Spec2Isabelle
  imports Main
begin

section \<open>Python values used by the scraper\<close>

text \<open>
  A Python \<^verbatim>\<open>str\<close> is a sequence of Unicode code points, and \<^verbatim>\<open>len\<close>, slicing and
  \<^verbatim>\<open>in\<close> count code points. A HOL \<^typ>\<open>char\<close> is one byte, so a \<^verbatim>\<open>str\<close> is modelled as
  the list of its code points. \<open>ascii\<close> embeds the literals of the source.
\<close>

type_synonym pystr = "nat list"

definition ascii :: "string \<Rightarrow> pystr" where
  "ascii s = map of_char s"

text \<open>
  Exceptions are values. The model distinguishes the exceptions the sources name or
  provoke; all of them are instances of Python's \<^verbatim>\<open>Exception\<close>, which is what every
  \<^verbatim>\<open>except\<close> clause of the sources catches.
\<close>

datatype error =
    NoSuchElement
  | WebDriverError
  | AttributeError
  | ValueError
  | DatabaseError
  | Skipped string

type_synonym 'a result = "error + 'a"

subsection \<open>String operations\<close>

text \<open>\<^verbatim>\<open>s.startswith(p)\<close>\<close>

fun startswith :: "'a list \<Rightarrow> 'a list \<Rightarrow> bool" where
  "startswith s [] = True"
| "startswith [] (p # ps) = False"
| "startswith (c # cs) (p # ps) = (c = p \<and> startswith cs ps)"

text \<open>\<^verbatim>\<open>sub in s\<close>\<close>

fun contains :: "'a list \<Rightarrow> 'a list \<Rightarrow> bool" where
  "contains sub [] = (sub = [])"
| "contains sub (c # cs) = (startswith (c # cs) sub \<or> contains sub cs)"

text \<open>\<^verbatim>\<open>s.split(sep)[0]\<close> for a separator that is not empty: the text before the first
  occurrence of \<open>sep\<close>, or all of \<open>s\<close> when there is none.\<close>

fun split_head :: "'a list \<Rightarrow> 'a list \<Rightarrow> 'a list" where
  "split_head sep [] = []"
| "split_head sep (c # cs) =
     (if startswith (c # cs) sep then [] else c # split_head sep cs)"

text \<open>\<^verbatim>\<open>s.split('\n')\<close>: all the pieces between occurrences of one character.\<close>

fun split_char :: "'a \<Rightarrow> 'a list \<Rightarrow> 'a list list" where
  "split_char d [] = [[]]"
| "split_char d (c # cs) =
     (case split_char d cs of
        [] \<Rightarrow> [[c]]
      | p # ps \<Rightarrow> if c = d then [] # p # ps else (c # p) # ps)"

text \<open>\<^verbatim>\<open>sep.join(parts)\<close>\<close>

fun join :: "'a list \<Rightarrow> 'a list list \<Rightarrow> 'a list" where
  "join sep [] = []"
| "join sep [x] = x"
| "join sep (x # y # ys) = x @ sep @ join sep (y # ys)"

text \<open>The code points \<^verbatim>\<open>str.strip()\<close> removes (those for which \<^verbatim>\<open>str.isspace\<close> holds).\<close>

definition isspace :: "nat \<Rightarrow> bool" where
  "isspace c =
     ((9 \<le> c \<and> c \<le> 13) \<or> (28 \<le> c \<and> c \<le> 32) \<or> c = 133 \<or> c = 160 \<or> c = 5760
      \<or> (8192 \<le> c \<and> c \<le> 8202) \<or> c = 8232 \<or> c = 8233 \<or> c = 8239 \<or> c = 8287
      \<or> c = 12288)"

definition strip :: "pystr \<Rightarrow> pystr" where
  "strip s = rev (dropWhile isspace (rev (dropWhile isspace s)))"

text \<open>
  \<^verbatim>\<open>str.lower()\<close> belongs to Python's library and follows the Unicode case mappings; it
  is a parameter \<open>lower\<close> of every definition that calls it. On a text of ASCII characters
  it maps the letters A to Z to a to z and leaves the rest: that function, \<open>ascii_lower\<close>,
  stands for it where an example made of ASCII text is evaluated.
\<close>

definition lower_char :: "nat \<Rightarrow> nat" where
  "lower_char c = (if 65 \<le> c \<and> c \<le> 90 then c + 32 else c)"

definition ascii_lower :: "pystr \<Rightarrow> pystr" where
  "ascii_lower s = map lower_char s"

subsection \<open>Dates\<close>

record datetime =
  dt_year :: nat
  dt_month :: nat
  dt_day :: nat
  dt_hour :: nat
  dt_minute :: nat
  dt_second :: nat

text \<open>The value under the key \<^verbatim>\<open>posted_date\<close>: \<^verbatim>\<open>None\<close>, a \<^verbatim>\<open>datetime\<close> or a string.\<close>

datatype date_value = NoDate | DateTime datetime | DateText pystr

definition digits2 :: "nat \<Rightarrow> pystr" where
  "digits2 n = [48 + n div 10 mod 10, 48 + n mod 10]"

definition digits4 :: "nat \<Rightarrow> pystr" where
  "digits4 n = [48 + n div 1000 mod 10, 48 + n div 100 mod 10, 48 + n div 10 mod 10, 48 + n mod 10]"

text \<open>\<^verbatim>\<open>value.strftime('%Y-%m-%d %H:%M')\<close>\<close>

definition strftime_short :: "datetime \<Rightarrow> pystr" where
  "strftime_short d =
     digits4 (dt_year d) @ ascii ''-'' @ digits2 (dt_month d) @ ascii ''-'' @ digits2 (dt_day d)
     @ ascii '' '' @ digits2 (dt_hour d) @ ascii '':'' @ digits2 (dt_minute d)"

section \<open>The notification message (utils/telegram_service.py)\<close>

text \<open>The dictionary handed to \<^verbatim>\<open>notify_new_job\<close>. A key holding \<^verbatim>\<open>None\<close> is \<open>None\<close>.\<close>

record job =
  job_id :: "pystr option"
  job_url :: "pystr option"
  job_title :: "pystr option"
  posted_date :: date_value
  job_description :: "pystr option"
  job_tags :: "pystr option"
  job_proposals :: "pystr option"

text \<open>\<^verbatim>\<open>_val\<close>: \<^verbatim>\<open>''\<close> for \<^verbatim>\<open>None\<close>, the string itself otherwise.\<close>

definition val :: "pystr option \<Rightarrow> pystr" where
  "val v = (case v of None \<Rightarrow> [] | Some s \<Rightarrow> s)"

text \<open>The literal appended to a cut description, as the source file holds it: the three
  code points U+00E2, U+20AC, U+00A6.\<close>

definition ellipsis_literal :: pystr where
  "ellipsis_literal = [226, 8364, 166]"

text \<open>\<^verbatim>\<open>(desc_full[:800] + <literal>) if len(desc_full) > 800 else desc_full\<close>\<close>

definition truncate_description :: "pystr \<Rightarrow> pystr" where
  "truncate_description desc_full =
     (if length desc_full > 800 then take 800 desc_full @ ellipsis_literal else desc_full)"

text \<open>
  \<^verbatim>\<open>_short_date\<close>. \<^verbatim>\<open>datetime.fromisoformat\<close> belongs to Python's library and is a
  parameter \<open>fromisoformat\<close>; \<^verbatim>\<open>s.replace('Z', '')\<close> drops every \<^verbatim>\<open>Z\<close> (code point 90).
\<close>

definition short_date :: "(pystr \<Rightarrow> datetime result) \<Rightarrow> date_value \<Rightarrow> pystr" where
  "short_date fromisoformat v =
     (case v of
        DateTime d \<Rightarrow> strftime_short d
      | NoDate \<Rightarrow> []
      | DateText s \<Rightarrow>
          if s = [] then []
          else (case fromisoformat (filter (\<lambda>c. c \<noteq> 90) s) of
                  Inr dt \<Rightarrow> strftime_short dt
                | Inl e \<Rightarrow> if length s \<ge> 16 then take 16 s else s))"

definition separator :: pystr where
  "separator = ascii ''---''"

definition message_lines :: "(pystr \<Rightarrow> datetime result) \<Rightarrow> job \<Rightarrow> pystr list" where
  "message_lines fromisoformat j =
     [val (job_title j),
      ascii ''---'',
      val (job_url j),
      ascii ''---'',
      short_date fromisoformat (posted_date j),
      ascii ''---'',
      truncate_description (val (job_description j))]"

text \<open>\<^verbatim>\<open>format_job_message\<close>. The text computed from \<^verbatim>\<open>job_tags\<close> is not used by the
  source and is left out.\<close>

definition format_job_message :: "(pystr \<Rightarrow> datetime result) \<Rightarrow> job \<Rightarrow> pystr" where
  "format_job_message fromisoformat j =
     separator @ ascii [CHR 0x0A] @ join (ascii [CHR 0x0A]) (message_lines fromisoformat j)
     @ ascii [CHR 0x0A] @ separator"

section \<open>Canonical URLs\<close>

text \<open>\<^verbatim>\<open>url.split('/?')[0]\<close>, in both extraction loops.\<close>

definition canonical_url :: "pystr \<Rightarrow> pystr" where
  "canonical_url url = split_head (ascii ''/?'') url"

section \<open>The rendered page\<close>

text \<open>
  The browser's elements are the input of the extractor. An element answers the four
  calls the sources make on it; each call returns a value or raises.
\<close>

datatype locator = XPATH | CSS_SELECTOR | TAG_NAME

datatype element = Element
  (el_get_attribute: "string \<Rightarrow> pystr option result")
  (el_text: "pystr result")
  (el_find_element: "locator \<Rightarrow> string \<Rightarrow> element result")
  (el_find_elements: "locator \<Rightarrow> string \<Rightarrow> element list result")

text \<open>The settings module is not among the sources; its values are parameters. An
  attribute the module does not define is \<open>None\<close>.\<close>

record config =
  BANNED_COUNTRIES :: "pystr list option"
  SEARCH_PAGES :: "pystr list option"

text \<open>\<^verbatim>\<open>getattr(config, 'BANNED_COUNTRIES', [])\<close>\<close>

definition getattr_banned :: "config \<Rightarrow> pystr list" where
  "getattr_banned cfg = (case BANNED_COUNTRIES cfg of None \<Rightarrow> [] | Some l \<Rightarrow> l)"

text \<open>One element of \<^verbatim>\<open>job_entries\<close>.\<close>

record entry =
  e_url :: pystr
  e_title :: pystr
  e_description :: pystr
  e_proposals :: pystr
  e_posted :: pystr
  e_tags :: "pystr list"

text \<open>\<^verbatim>\<open>any(bad in url for bad in ['ontology_skill_uid', 'search/saved', 'search/jobs/saved'])\<close>\<close>

definition denylisted :: "pystr \<Rightarrow> bool" where
  "denylisted url =
     list_ex (\<lambda>bad. contains bad url)
       [ascii ''ontology_skill_uid'', ascii ''search/saved'', ascii ''search/jobs/saved'']"

text \<open>The description filter of both loops: the description is not empty and the
  lowered description contains a lowered banned term.\<close>

definition banned_in_description :: "(pystr \<Rightarrow> pystr) \<Rightarrow> pystr list \<Rightarrow> pystr \<Rightarrow> bool" where
  "banned_in_description lower banned_list description_text =
     (description_text \<noteq> []
      \<and> list_ex (\<lambda>bc. contains (lower bc) (lower description_text)) banned_list)"

section \<open>The loose strategy (the loop over \<^verbatim>\<open>raw_links\<close> in main)\<close>

text \<open>The first ancestor that is found, trying the three paths in order.\<close>

fun find_container :: "element \<Rightarrow> string list \<Rightarrow> element option" where
  "find_container link [] = None"
| "find_container link (ancestor_xpath # rest) =
     (case el_find_element link XPATH ancestor_xpath of
        Inr container \<Rightarrow> Some container
      | Inl e \<Rightarrow> find_container link rest)"

text \<open>The inner loop over the elements one path finds: a text that is not empty and is
  not the title is a candidate. A raising \<^verbatim>\<open>el.text\<close> ends the whole collection.\<close>

fun candidate_texts :: "pystr \<Rightarrow> element list \<Rightarrow> pystr list result" where
  "candidate_texts title [] = Inr []"
| "candidate_texts title (el # els) =
     (case el_text el of
        Inl e \<Rightarrow> Inl e
      | Inr raw \<Rightarrow>
          (case candidate_texts title els of
             Inl e \<Rightarrow> Inl e
           | Inr ts \<Rightarrow> Inr (if strip raw \<noteq> [] \<and> strip raw \<noteq> title then strip raw # ts else ts)))"

fun text_candidates :: "element \<Rightarrow> pystr \<Rightarrow> string list \<Rightarrow> pystr list result" where
  "text_candidates container title [] = Inr []"
| "text_candidates container title (elem_xpath # rest) =
     (case el_find_elements container XPATH elem_xpath of
        Inl e \<Rightarrow> Inl e
      | Inr els \<Rightarrow>
          (case candidate_texts title els of
             Inl e \<Rightarrow> Inl e
           | Inr ts \<Rightarrow>
               (case text_candidates container title rest of
                  Inl e \<Rightarrow> Inl e
                | Inr ts' \<Rightarrow> Inr (ts @ ts'))))"

text \<open>\<^verbatim>\<open>max(text_candidates, key=len)\<close>: the first of the longest candidates.\<close>

fun longest :: "pystr \<Rightarrow> pystr list \<Rightarrow> pystr" where
  "longest best [] = best"
| "longest best (t # ts) = longest (if length t > length best then t else best) ts"

text \<open>The text of the first element a path finds, \<^verbatim>\<open>''\<close> when the lookup or the read
  raises.\<close>

definition text_or_empty :: "element \<Rightarrow> locator \<Rightarrow> string \<Rightarrow> pystr" where
  "text_or_empty root how what =
     (case el_find_element root how what of
        Inl e \<Rightarrow> []
      | Inr el \<Rightarrow> (case el_text el of Inl e \<Rightarrow> [] | Inr t \<Rightarrow> t))"

text \<open>The block that fills \<^verbatim>\<open>description_text\<close>, \<^verbatim>\<open>proposals_text\<close> and \<^verbatim>\<open>posted_text\<close>.
  An exception while the candidates are collected leaves all three empty.\<close>

definition rich_fields :: "element \<Rightarrow> pystr \<Rightarrow> pystr \<times> pystr \<times> pystr" where
  "rich_fields link title =
     (case find_container link
             [''./ancestor::section[1]'', ''./ancestor::article[1]'', ''./ancestor::div[1]''] of
        None \<Rightarrow> ([], [], [])
      | Some container \<Rightarrow>
          (case text_candidates container title [''.//p'', ''.//div'', ''.//span''] of
             Inl e \<Rightarrow> ([], [], [])
           | Inr cands \<Rightarrow>
               ((case cands of [] \<Rightarrow> [] | t # ts \<Rightarrow> longest t ts),
                text_or_empty container XPATH ''.//*[contains(., 'Proposals')]'',
                text_or_empty container XPATH
                  ''.//*[contains(., 'ago') or contains(., 'yesterday') or contains(., 'week')]'')))"

text \<open>One iteration of the loop: the set of URLs seen so far goes in, the new set and
  the entry appended (if any) come out. Every \<^verbatim>\<open>continue\<close> and the outer
  \<^verbatim>\<open>except Exception: continue\<close> yield no entry.\<close>

definition loose_step :: "(pystr \<Rightarrow> pystr) \<Rightarrow> config \<Rightarrow> pystr set \<Rightarrow> element \<Rightarrow> pystr set \<times> entry option" where
  "loose_step lower cfg seen link =
     (case el_get_attribute link ''href'' of
        Inl e \<Rightarrow> (seen, None)
      | Inr h \<Rightarrow>
          if val h = [] then (seen, None)
          else if denylisted (val h) then (seen, None)
          else
            (case el_text link of
               Inl e \<Rightarrow> (seen, None)
             | Inr raw \<Rightarrow>
                 if strip raw = [] then (seen, None)
                 else if canonical_url (val h) \<in> seen then (seen, None)
                 else
                   (case rich_fields link (strip raw) of
                      (description_text, proposals_text, posted_text) \<Rightarrow>
                        if banned_in_description lower (getattr_banned cfg) description_text
                        then (insert (canonical_url (val h)) seen, None)
                        else (insert (canonical_url (val h)) seen,
                              Some \<lparr>e_url = canonical_url (val h), e_title = strip raw,
                                    e_description = description_text,
                                    e_proposals = proposals_text, e_posted = posted_text,
                                    e_tags = []\<rparr>))))"

text \<open>The whole loop: the entries in the order they are appended.\<close>

fun loose_entries :: "(pystr \<Rightarrow> pystr) \<Rightarrow> config \<Rightarrow> pystr set \<Rightarrow> element list \<Rightarrow> entry list" where
  "loose_entries lower cfg seen [] = []"
| "loose_entries lower cfg seen (link # links) =
     (case loose_step lower cfg seen link of
        (seen', None) \<Rightarrow> loose_entries lower cfg seen' links
      | (seen', Some e) \<Rightarrow> e # loose_entries lower cfg seen' links)"

section \<open>The structured strategy (utils/search_scraper.py)\<close>

text \<open>The loop over the tag buttons: a raising \<^verbatim>\<open>btn.text\<close> leaves the loop, and the tags
  appended before it stay.\<close>

fun collect_tags :: "element list \<Rightarrow> pystr list" where
  "collect_tags [] = []"
| "collect_tags (btn # btns) =
     (case el_text btn of
        Inl e \<Rightarrow> []
      | Inr raw \<Rightarrow> if strip raw \<noteq> [] then strip raw # collect_tags btns else collect_tags btns)"

definition tags_list :: "element \<Rightarrow> pystr list" where
  "tags_list tile =
     (case el_find_elements tile CSS_SELECTOR
             ''div[data-test='TokenClamp JobAttrs'] button[data-test='token'] span'' of
        Inl e \<Rightarrow> []
      | Inr btns \<Rightarrow> collect_tags btns)"

text \<open>The four blocks that append to \<^verbatim>\<open>client_parts\<close>, each with its own handlers.\<close>

definition payment_part :: "element \<Rightarrow> pystr list" where
  "payment_part client_ul =
     (case el_find_element client_ul CSS_SELECTOR ''li[data-test='payment-verified']'' of
        Inr el \<Rightarrow> [ascii ''Payment verified'']
      | Inl e \<Rightarrow>
          (case el_find_element client_ul CSS_SELECTOR ''li[data-test='payment-unverified']'' of
             Inr el \<Rightarrow> [ascii ''Payment unverified'']
           | Inl e' \<Rightarrow> []))"

definition rating_part :: "element \<Rightarrow> pystr list" where
  "rating_part client_ul =
     (case el_find_element client_ul CSS_SELECTOR ''div.air3-rating-value-text'' of
        Inl e \<Rightarrow> []
      | Inr el \<Rightarrow>
          (case el_text el of
             Inl e \<Rightarrow> []
           | Inr rating_text \<Rightarrow>
               if rating_text \<noteq> [] then [ascii ''rating '' @ rating_text] else []))"

definition spent_part :: "element \<Rightarrow> pystr list" where
  "spent_part client_ul =
     (case el_find_element client_ul CSS_SELECTOR ''li[data-test='total-spent']'' of
        Inl e \<Rightarrow> []
      | Inr spent_li \<Rightarrow>
          (case (case el_find_element spent_li TAG_NAME ''strong'' of
                   Inl e \<Rightarrow> Inl e
                 | Inr strong \<Rightarrow> el_text strong) of
             Inr amount \<Rightarrow> if amount \<noteq> [] then [amount @ ascii '' spent''] else []
           | Inl e \<Rightarrow>
               (case el_text spent_li of
                  Inl e' \<Rightarrow> []
                | Inr raw \<Rightarrow> if strip raw \<noteq> [] then [strip raw] else [])))"

definition location_prefixes :: "pystr list" where
  "location_prefixes =
     [ascii ''Location '', ascii ''Location:'', ascii ''Location'' @ [160],
      ascii ''Location'' @ [10], ascii ''Location'' @ [9], ascii ''Location'']"

text \<open>The loop over the prefixes, left at the first prefix that matches.\<close>

fun remove_prefix :: "pystr \<Rightarrow> pystr list \<Rightarrow> pystr" where
  "remove_prefix country [] = country"
| "remove_prefix country (prefix # rest) =
     (if startswith country prefix then strip (drop (length prefix) country)
      else remove_prefix country rest)"

text \<open>With several lines, the last token that is not blank.\<close>

definition last_line :: "pystr \<Rightarrow> pystr" where
  "last_line country =
     (if contains [10] country
      then (case filter (\<lambda>t. t \<noteq> []) (map strip (split_char 10 country)) of
              [] \<Rightarrow> country
            | t # ts \<Rightarrow> last (t # ts))
      else country)"

definition location_part :: "element \<Rightarrow> pystr list" where
  "location_part client_ul =
     (case el_find_element client_ul CSS_SELECTOR ''li[data-test='location']'' of
        Inl e \<Rightarrow> []
      | Inr loc_li \<Rightarrow>
          (let from_span =
                 (case el_find_element loc_li CSS_SELECTOR ''span[tabindex]'' of
                    Inl e \<Rightarrow> []
                  | Inr outer_span \<Rightarrow>
                      (case el_text outer_span of Inl e \<Rightarrow> [] | Inr raw \<Rightarrow> strip raw));
               country =
                 (if from_span = []
                  then (case el_text loc_li of Inl e \<Rightarrow> [] | Inr raw \<Rightarrow> strip raw)
                  else from_span);
               cleaned =
                 (if country \<noteq> [] then last_line (remove_prefix country location_prefixes)
                  else country)
           in if cleaned \<noteq> [] then [cleaned] else []))"

definition client_parts :: "element \<Rightarrow> pystr list" where
  "client_parts tile =
     (case el_find_element tile CSS_SELECTOR ''ul[data-test='JobInfoClient']'' of
        Inl e \<Rightarrow> []
      | Inr client_ul \<Rightarrow>
          payment_part client_ul @ rating_part client_ul @ spent_part client_ul
          @ location_part client_ul)"

text \<open>The filter on the client parts: some lowered banned term lies in some lowered
  part.\<close>

definition banned_in_client :: "(pystr \<Rightarrow> pystr) \<Rightarrow> pystr list \<Rightarrow> pystr list \<Rightarrow> bool" where
  "banned_in_client lower banned_list parts =
     list_ex (\<lambda>banned_country. list_ex (\<lambda>part. contains (lower banned_country) (lower part)) parts)
       banned_list"

text \<open>The enriched description: client line, proposals line, description.\<close>

definition compose_description :: "pystr list \<Rightarrow> pystr \<Rightarrow> pystr \<Rightarrow> pystr" where
  "compose_description parts proposals_text description_text =
     (let client_info = (if parts \<noteq> [] then join (ascii '' | '') parts else [])
      in join [10]
           ((if client_info \<noteq> [] then [ascii ''Client: '' @ client_info @ [10] @ ascii ''-''] else [])
            @ (if proposals_text \<noteq> [] then [ascii ''Proposals: '' @ proposals_text @ [10] @ ascii ''-''] else [])
            @ (if description_text \<noteq> [] then [description_text] else [])))"

definition tile_posted :: "element \<Rightarrow> pystr" where
  "tile_posted tile = text_or_empty tile CSS_SELECTOR ''small[data-test='job-pubilshed-date']''"

definition tile_description :: "element \<Rightarrow> pystr" where
  "tile_description tile =
     strip (text_or_empty tile XPATH ''.//div[@data-test='UpCLineClamp JobDescription']//p'')"

definition tile_proposals :: "element \<Rightarrow> pystr" where
  "tile_proposals tile = strip (text_or_empty tile CSS_SELECTOR ''li[data-test='proposals-tier']'')"

text \<open>
  The rest of an iteration once the URL is recorded: the fields, the two filters (each
  leaves the iteration by raising) and the entry. With client parts present the first
  filter reads \<^verbatim>\<open>config.BANNED_COUNTRIES\<close> directly, which raises when the attribute is
  missing.
\<close>

definition tile_entry :: "(pystr \<Rightarrow> pystr) \<Rightarrow> config \<Rightarrow> element \<Rightarrow> pystr \<Rightarrow> pystr \<Rightarrow> entry option" where
  "tile_entry lower cfg tile href title =
     (if client_parts tile \<noteq> [] \<and> BANNED_COUNTRIES cfg = None then None
      else if client_parts tile \<noteq> [] \<and> banned_in_client lower (getattr_banned cfg) (client_parts tile)
      then None
      else if banned_in_description lower (getattr_banned cfg) (tile_description tile) then None
      else Some \<lparr>e_url = href, e_title = title,
                 e_description =
                   compose_description (client_parts tile) (tile_proposals tile)
                     (tile_description tile),
                 e_proposals = tile_proposals tile, e_posted = tile_posted tile,
                 e_tags = tags_list tile\<rparr>)"

definition structured_step :: "(pystr \<Rightarrow> pystr) \<Rightarrow> config \<Rightarrow> pystr set \<Rightarrow> element \<Rightarrow> pystr set \<times> entry option" where
  "structured_step lower cfg seen tile =
     (case el_find_element tile CSS_SELECTOR
             ''h2.job-tile-title a[data-test*='job-tile-title-link']'' of
        Inl e \<Rightarrow> (seen, None)
      | Inr title_el \<Rightarrow>
          (case el_get_attribute title_el ''href'' of
             Inl e \<Rightarrow> (seen, None)
           | Inr h \<Rightarrow>
               (case el_text title_el of
                  Inl e \<Rightarrow> (seen, None)
                | Inr raw \<Rightarrow>
                    if strip (val h) = [] \<or> strip raw = [] then (seen, None)
                    else if denylisted (strip (val h)) then (seen, None)
                    else if canonical_url (strip (val h)) \<in> seen then (seen, None)
                    else (insert (canonical_url (strip (val h))) seen,
                          tile_entry lower cfg tile (canonical_url (strip (val h))) (strip raw)))))"

fun structured_entries :: "(pystr \<Rightarrow> pystr) \<Rightarrow> config \<Rightarrow> pystr set \<Rightarrow> element list \<Rightarrow> entry list" where
  "structured_entries lower cfg seen [] = []"
| "structured_entries lower cfg seen (tile # tiles) =
     (case structured_step lower cfg seen tile of
        (seen', None) \<Rightarrow> structured_entries lower cfg seen' tiles
      | (seen', Some e) \<Rightarrow> e # structured_entries lower cfg seen' tiles)"

section \<open>The browser session\<close>

datatype script_value = ScriptNone | ScriptInt int | ScriptText pystr

text \<open>
  What the session answers: a script's result; the anchors found on the primary listing
  after navigation, scrolling and the wait; and, for a search page's URL, the tiles
  found after the same steps. Each answer is a value or an exception.
\<close>

record driver =
  execute_script :: "string \<Rightarrow> script_value result"
  job_links :: "element list result"
  job_tiles :: "pystr \<Rightarrow> element list result"

text \<open>\<^verbatim>\<open>is_driver_alive\<close>. A handle that is \<^verbatim>\<open>None\<close> has no \<^verbatim>\<open>execute_script\<close>: the call
  raises \<^verbatim>\<open>AttributeError\<close> inside the \<^verbatim>\<open>try\<close>.\<close>

definition try_except :: "'a result \<Rightarrow> (error \<Rightarrow> 'a result) \<Rightarrow> 'a result" where
  "try_except body handler = (case body of Inl e \<Rightarrow> handler e | Inr v \<Rightarrow> Inr v)"

definition is_driver_alive :: "driver option \<Rightarrow> bool result" where
  "is_driver_alive current_driver =
     try_except
       (case (case current_driver of
                None \<Rightarrow> Inl AttributeError
              | Some d \<Rightarrow> execute_script d ''return 1'') of
          Inl e \<Rightarrow> Inl e
        | Inr v \<Rightarrow> Inr True)
       (\<lambda>e. Inr False)"


section \<open>Persistence and notification (the loops over the entries in main)\<close>

text \<open>A row of the \<^verbatim>\<open>jobs\<close> table: the columns the two statements of the source name.
  The schema is not among the sources, so the table is a list of rows with no
  uniqueness assumed, and \<^verbatim>\<open>updated_at\<close> holds no value until an \<^verbatim>\<open>UPDATE\<close> sets it.\<close>

record row =
  r_job_id :: pystr
  r_job_url :: pystr
  r_job_title :: pystr
  r_posted_date :: date_value
  r_job_description :: pystr
  r_job_tags :: pystr
  r_job_proposals :: pystr
  r_updated_at :: "datetime option"

text \<open>
  The state the loops change: the table as the connection sees it, the table as last
  committed, the texts handed to \<^verbatim>\<open>send_telegram_message\<close> in order, and the number of
  readings of the clock so far.
\<close>

record state =
  jobs_table :: "row list"
  committed :: "row list"
  outbox :: "pystr list"
  clock :: nat

datatype db_call = Select | Update | Insert | Commit

text \<open>
  What the loops use and the sources do not hold: the three helpers of
  \<^verbatim>\<open>utils.job_helpers\<close>, Python's ISO parser, the clock, and the database engine, of which
  the model knows for which statement and job id a call raises.
\<close>

record env =
  generate_job_id :: "pystr \<Rightarrow> pystr"
  clean_job_proposals :: "pystr \<Rightarrow> pystr result"
  calculate_posted_datetime :: "pystr \<Rightarrow> date_value result"
  py_fromisoformat :: "pystr \<Rightarrow> datetime result"
  now :: "nat \<Rightarrow> datetime"
  db_raises :: "db_call \<Rightarrow> pystr \<Rightarrow> bool"

text \<open>A step that raises returns the exception with the state reached when it was
  raised.\<close>

type_synonym outcome = "(error \<times> state) + state"

definition final_state :: "outcome \<Rightarrow> state" where
  "final_state r = (case r of Inl (e, st) \<Rightarrow> st | Inr st \<Rightarrow> st)"

text \<open>\<^verbatim>\<open>notify_new_job\<close>: the message is formatted and handed to the transport, which
  catches its own failures.\<close>

definition notify_new_job :: "env \<Rightarrow> job \<Rightarrow> state \<Rightarrow> state" where
  "notify_new_job env j st =
     st\<lparr>outbox := outbox st @ [format_job_message (py_fromisoformat env) j]\<rparr>"

definition commit :: "env \<Rightarrow> pystr \<Rightarrow> state \<Rightarrow> outcome" where
  "commit env jid st =
     (if db_raises env Commit jid then Inl (DatabaseError, st)
      else Inr (st\<lparr>committed := jobs_table st\<rparr>))"

definition entry_posted_date :: "env \<Rightarrow> entry \<Rightarrow> date_value" where
  "entry_posted_date env entry =
     (if e_posted entry \<noteq> []
      then (case calculate_posted_datetime env (e_posted entry) of
              Inl e \<Rightarrow> NoDate
            | Inr d \<Rightarrow> d)
      else NoDate)"

definition entry_proposals :: "env \<Rightarrow> entry \<Rightarrow> pystr" where
  "entry_proposals env entry =
     (if e_proposals entry \<noteq> []
      then (case clean_job_proposals env (e_proposals entry) of
              Inl e \<Rightarrow> []
            | Inr p \<Rightarrow> p)
      else [])"

text \<open>The dictionary built for \<^verbatim>\<open>notify_new_job\<close>.\<close>

definition entry_job :: "env \<Rightarrow> entry \<Rightarrow> job" where
  "entry_job env entry =
     \<lparr>job_id = Some (generate_job_id env (e_title entry)),
      job_url = Some (e_url entry),
      job_title = Some (e_title entry),
      posted_date = entry_posted_date env entry,
      job_description = Some (e_description entry),
      job_tags = Some (ascii ''[]''),
      job_proposals = Some (entry_proposals env entry)\<rparr>"

text \<open>The row of the \<^verbatim>\<open>INSERT\<close>.\<close>

definition entry_row :: "env \<Rightarrow> entry \<Rightarrow> row" where
  "entry_row env entry =
     \<lparr>r_job_id = generate_job_id env (e_title entry),
      r_job_url = e_url entry,
      r_job_title = e_title entry,
      r_posted_date = entry_posted_date env entry,
      r_job_description = e_description entry,
      r_job_tags = ascii ''[]'',
      r_job_proposals = entry_proposals env entry,
      r_updated_at = None\<rparr>"

text \<open>\<^verbatim>\<open>UPDATE jobs SET job_proposals = ?, updated_at = ? WHERE job_id = ?\<close>\<close>

definition update_row :: "pystr \<Rightarrow> pystr \<Rightarrow> datetime \<Rightarrow> row \<Rightarrow> row" where
  "update_row jid proposals t r =
     (if r_job_id r = jid then r\<lparr>r_job_proposals := proposals, r_updated_at := Some t\<rparr> else r)"

text \<open>The body of the loop over the entries: count the rows with the job id, update or
  insert and notify, commit. No statement of it stands in a \<^verbatim>\<open>try\<close> of its own.\<close>

definition persist_entry :: "env \<Rightarrow> state \<Rightarrow> entry \<Rightarrow> outcome" where
  "persist_entry env st entry =
     (let jid = generate_job_id env (e_title entry) in
      if db_raises env Select jid then Inl (DatabaseError, st)
      else if length (filter (\<lambda>r. r_job_id r = jid) (jobs_table st)) > 0
      then
        (if db_raises env Update jid then Inl (DatabaseError, st\<lparr>clock := Suc (clock st)\<rparr>)
         else commit env jid
                (st\<lparr>jobs_table :=
                      map (update_row jid (entry_proposals env entry) (now env (clock st)))
                        (jobs_table st),
                    clock := Suc (clock st)\<rparr>))
      else
        (if db_raises env Insert jid then Inl (DatabaseError, st)
         else commit env jid
                (notify_new_job env (entry_job env entry)
                   (st\<lparr>jobs_table := jobs_table st @ [entry_row env entry]\<rparr>))))"

fun persist_entries :: "env \<Rightarrow> state \<Rightarrow> entry list \<Rightarrow> outcome" where
  "persist_entries env st [] = Inr st"
| "persist_entries env st (entry # entries) =
     (case persist_entry env st entry of
        Inl x \<Rightarrow> Inl x
      | Inr st' \<Rightarrow> persist_entries env st' entries)"






section \<open>Example inputs\<close>

text \<open>Concrete inputs at which the theorems below are evaluated.\<close>

definition example_job :: job where
  "example_job =
     \<lparr>job_id = Some (ascii ''a1''), job_url = Some (ascii ''https://www.upwork.com/jobs/1''),
      job_title = Some (ascii ''Scraper''),
      posted_date = DateTime \<lparr>dt_year = 2024, dt_month = 3, dt_day = 9, dt_hour = 7, dt_minute = 5, dt_second = 59\<rparr>,
      job_description = Some (ascii ''Short text''), job_tags = Some (ascii ''[]''),
      job_proposals = Some []\<rparr>"

definition leaf :: "pystr \<Rightarrow> element" where
  "leaf t = Element (\<lambda>a. Inr None) (Inr t) (\<lambda>how what. Inl NoSuchElement) (\<lambda>how what. Inr [])"

definition anchor :: "pystr \<Rightarrow> pystr \<Rightarrow> element" where
  "anchor href t =
     Element (\<lambda>a. if a = ''href'' then Inr (Some href) else Inr None) (Inr t)
       (\<lambda>how what. Inl NoSuchElement) (\<lambda>how what. Inr [])"

definition anchor_in_div :: "pystr \<Rightarrow> pystr \<Rightarrow> pystr \<Rightarrow> element" where
  "anchor_in_div href t description =
     Element (\<lambda>a. if a = ''href'' then Inr (Some href) else Inr None) (Inr t)
       (\<lambda>how what.
          if how = XPATH \<and> what = ''./ancestor::div[1]''
          then Inr (Element (\<lambda>a. Inr None) (Inr description) (\<lambda>how what. Inl NoSuchElement)
                      (\<lambda>how what. if how = XPATH \<and> what = ''.//p'' then Inr [leaf description]
                                   else Inr []))
          else Inl NoSuchElement)
       (\<lambda>how what. Inr [])"

definition live_driver :: driver where
  "live_driver = \<lparr>execute_script = (\<lambda>s. Inr (ScriptInt 1)), job_links = Inr [], job_tiles = (\<lambda>u. Inr [])\<rparr>"

definition dead_driver :: driver where
  "dead_driver = \<lparr>execute_script = (\<lambda>s. Inl WebDriverError), job_links = Inl WebDriverError,
     job_tiles = (\<lambda>u. Inl WebDriverError)\<rparr>"

definition example_config :: config where
  "example_config = \<lparr>BANNED_COUNTRIES = Some [ascii ''India'', ascii ''Pakistan''], SEARCH_PAGES = Some [ascii ''https://www.upwork.com/nx/search/jobs/?q=python'']\<rparr>"

definition example_tile :: "pystr \<Rightarrow> pystr \<Rightarrow> pystr \<Rightarrow> pystr \<Rightarrow> pystr \<Rightarrow> element" where
  "example_tile href title description proposals location =
     Element (\<lambda>a. Inr None) (Inr title)
       (\<lambda>how what.
          if how = CSS_SELECTOR \<and> what = ''h2.job-tile-title a[data-test*='job-tile-title-link']''
          then Inr (anchor href title)
          else if how = XPATH \<and> what = ''.//div[@data-test='UpCLineClamp JobDescription']//p''
               \<and> description \<noteq> []
          then Inr (leaf description)
          else if how = CSS_SELECTOR \<and> what = ''li[data-test='proposals-tier']'' \<and> proposals \<noteq> []
          then Inr (leaf proposals)
          else if how = CSS_SELECTOR \<and> what = ''ul[data-test='JobInfoClient']'' \<and> location \<noteq> []
          then Inr (Element (\<lambda>a. Inr None) (Inr location)
                      (\<lambda>how what.
                         if how = CSS_SELECTOR \<and> what = ''li[data-test='location']''
                         then Inr (leaf location) else Inl NoSuchElement)
                      (\<lambda>how what. Inr []))
          else Inl NoSuchElement)
       (\<lambda>how what. Inr [])"

text \<open>The set \<^verbatim>\<open>job_urls_seen\<close> after a loop has run over a list of elements.\<close>

fun loose_seen :: "(pystr \<Rightarrow> pystr) \<Rightarrow> config \<Rightarrow> pystr set \<Rightarrow> element list \<Rightarrow> pystr set" where
  "loose_seen lower cfg seen [] = seen"
| "loose_seen lower cfg seen (link # links) = loose_seen lower cfg (fst (loose_step lower cfg seen link)) links"

fun structured_seen :: "(pystr \<Rightarrow> pystr) \<Rightarrow> config \<Rightarrow> pystr set \<Rightarrow> element list \<Rightarrow> pystr set" where
  "structured_seen lower cfg seen [] = seen"
| "structured_seen lower cfg seen (tile # tiles) =
     structured_seen lower cfg (fst (structured_step lower cfg seen tile)) tiles"

definition example_env :: env where
  "example_env =
     \<lparr>generate_job_id = (\<lambda>title. ascii_lower title),
      clean_job_proposals = (\<lambda>p. Inr (strip p)),
      calculate_posted_datetime = (\<lambda>p. Inl ValueError),
      py_fromisoformat = (\<lambda>s. Inl ValueError),
      now = (\<lambda>n. \<lparr>dt_year = 2024, dt_month = 3, dt_day = 9, dt_hour = 7, dt_minute = n, dt_second = 0\<rparr>),
      db_raises = (\<lambda>c jid. False)\<rparr>"

definition empty_state :: state where
  "empty_state = \<lparr>jobs_table = [], committed = [], outbox = [], clock = 0\<rparr>"

definition stored_state :: state where
  "stored_state =
     \<lparr>jobs_table =
        [\<lparr>r_job_id = ascii ''job a'', r_job_url = ascii ''https://www.upwork.com/jobs/a'',
          r_job_title = ascii ''Job A'', r_posted_date = NoDate,
          r_job_description = ascii ''First description'', r_job_tags = ascii ''[]'',
          r_job_proposals = ascii ''Less than 5'', r_updated_at = None\<rparr>],
      committed =
        [\<lparr>r_job_id = ascii ''job a'', r_job_url = ascii ''https://www.upwork.com/jobs/a'',
          r_job_title = ascii ''Job A'', r_posted_date = NoDate,
          r_job_description = ascii ''First description'', r_job_tags = ascii ''[]'',
          r_job_proposals = ascii ''Less than 5'', r_updated_at = None\<rparr>],
      outbox = [], clock = 3\<rparr>"

definition reseen_entry :: entry where
  "reseen_entry =
     \<lparr>e_url = ascii ''https://www.upwork.com/jobs/a2'', e_title = ascii ''Job A'',
      e_description = ascii ''Second description'', e_proposals = ascii ''5 to 10'',
      e_posted = [], e_tags = []\<rparr>"

definition banned_anchor :: element where
  "banned_anchor =
     anchor_in_div (ascii ''https://www.upwork.com/jobs/b'') (ascii ''Job B'')
       (ascii ''Remote work, INDIA based team'')"

definition banned_tile :: element where
  "banned_tile =
     example_tile (ascii ''https://www.upwork.com/jobs/c'') (ascii ''Job C'')
       (ascii ''Remote work, india based team'') (ascii ''Less than 5'') (ascii ''Location Germany'')"

definition client_banned_tile :: element where
  "client_banned_tile =
     example_tile (ascii ''https://www.upwork.com/jobs/p'') (ascii ''Job P'') (ascii ''Team work'')
       (ascii ''Less than 5'') (ascii ''Location PAKISTAN'')"

definition proposals_tile :: element where
  "proposals_tile =
     example_tile (ascii ''https://www.upwork.com/jobs/d'') (ascii ''Job D'')
       (ascii ''Team work'') (ascii ''5 to 10 in India'') []"










section \<open>Strings and canonical URLs\<close>

lemma startswith_iff: "startswith s p \<longleftrightarrow> (\<exists>r. s = p @ r)"
  by (induction s p rule: startswith.induct) auto

lemma contains_iff: "contains sub s \<longleftrightarrow> (\<exists>p r. s = p @ sub @ r)"
proof (induction s)
  case Nil
  then show ?case by auto
next
  case (Cons c cs)
  show ?case
  proof
    assume "contains sub (c # cs)"
    then consider "startswith (c # cs) sub" | "contains sub cs" by auto
    then show "\<exists>p r. c # cs = p @ sub @ r"
    proof cases
      case 1
      then obtain r where "c # cs = sub @ r" by (auto simp: startswith_iff)
      then have "c # cs = [] @ sub @ r" by simp
      then show ?thesis by blast
    next
      case 2
      then obtain p r where "cs = p @ sub @ r" using Cons.IH by auto
      then have "c # cs = (c # p) @ sub @ r" by simp
      then show ?thesis by blast
    qed
  next
    assume "\<exists>p r. c # cs = p @ sub @ r"
    then obtain p r where eq: "c # cs = p @ sub @ r" by auto
    show "contains sub (c # cs)"
    proof (cases p)
      case Nil
      then have "startswith (c # cs) sub" using eq by (auto simp: startswith_iff)
      then show ?thesis by simp
    next
      case (Cons a p')
      then have "cs = p' @ sub @ r" using eq by simp
      then have "contains sub cs" using Cons.IH by blast
      then show ?thesis by simp
    qed
  qed
qed

lemma split_head_prefix: "\<exists>r. s = split_head sep s @ r"
  by (induction s) auto

lemma split_head_no_sep: "sep \<noteq> [] \<Longrightarrow> \<not> contains sep (split_head sep s)"
proof (induction s)
  case Nil
  then show ?case by simp
next
  case (Cons c cs)
  show ?case
  proof (cases "startswith (c # cs) sep")
    case True
    then show ?thesis using Cons.prems by simp
  next
    case False
    have "\<not> startswith (c # split_head sep cs) sep"
    proof
      assume "startswith (c # split_head sep cs) sep"
      then obtain r where r: "c # split_head sep cs = sep @ r" by (auto simp: startswith_iff)
      obtain r' where "cs = split_head sep cs @ r'" using split_head_prefix by blast
      then have "c # cs = (c # split_head sep cs) @ r'" by simp
      then have "c # cs = sep @ (r @ r')" using r by simp
      then have "startswith (c # cs) sep" unfolding startswith_iff by blast
      then show False using False by simp
    qed
    then show ?thesis using False Cons by simp
  qed
qed

lemma split_head_id: "\<not> contains sep s \<Longrightarrow> split_head sep s = s"
  by (induction s) auto

lemma split_head_at_sep: "contains sep s \<Longrightarrow> \<exists>r. s = split_head sep s @ sep @ r"
proof (induction s)
  case Nil
  then show ?case by simp
next
  case (Cons c cs)
  show ?case
  proof (cases "startswith (c # cs) sep")
    case True
    then show ?thesis by (simp add: startswith_iff)
  next
    case False
    then have "contains sep cs" using Cons.prems by simp
    then obtain r where "cs = split_head sep cs @ sep @ r" using Cons.IH by blast
    then have "c # cs = split_head sep (c # cs) @ sep @ r" using False by simp
    then show ?thesis by blast
  qed
qed

lemma split_head_first: "s = p @ sep @ r \<Longrightarrow> length (split_head sep s) \<le> length p"
proof (induction s arbitrary: p)
  case Nil
  then show ?case by simp
next
  case (Cons c cs)
  show ?case
  proof (cases "startswith (c # cs) sep")
    case True
    then show ?thesis by simp
  next
    case False
    then have "p \<noteq> []" using Cons.prems by (auto simp: startswith_iff)
    then obtain p' where p: "p = c # p'" "cs = p' @ sep @ r"
      using Cons.prems by (cases p) auto
    then have "length (split_head sep cs) \<le> length p'" using Cons.IH by blast
    then show ?thesis using False p by simp
  qed
qed

lemma sep_nonempty: "ascii ''/?'' \<noteq> []"
  by (simp add: ascii_def)

text \<open>
  C5. Canonicalization cuts a URL at the first occurrence of \<^verbatim>\<open>/?\<close>: when the URL holds
  \<^verbatim>\<open>/?\<close>, the URL is the canonical URL followed by \<^verbatim>\<open>/?\<close> and a rest, and no occurrence
  starts earlier; the canonical URL holds no \<^verbatim>\<open>/?\<close>; a URL without \<^verbatim>\<open>/?\<close> is unchanged;
  and canonicalizing twice gives what canonicalizing once gives, for every URL.
\<close>

theorem canonical_url_strips_query_and_is_idempotent:
  "(contains (ascii ''/?'') url \<longrightarrow> (\<exists>rest. url = canonical_url url @ ascii ''/?'' @ rest))
   \<and> (\<forall>p rest. url = p @ ascii ''/?'' @ rest \<longrightarrow> length (canonical_url url) \<le> length p)
   \<and> \<not> contains (ascii ''/?'') (canonical_url url)
   \<and> (\<not> contains (ascii ''/?'') url \<longrightarrow> canonical_url url = url)
   \<and> canonical_url (canonical_url url) = canonical_url url"
proof -
  have a: "contains (ascii ''/?'') url \<longrightarrow> (\<exists>rest. url = canonical_url url @ ascii ''/?'' @ rest)"
    unfolding canonical_url_def using split_head_at_sep by blast
  have b: "\<forall>p rest. url = p @ ascii ''/?'' @ rest \<longrightarrow> length (canonical_url url) \<le> length p"
    unfolding canonical_url_def using split_head_first by blast
  have c: "\<not> contains (ascii ''/?'') (canonical_url url)"
    unfolding canonical_url_def by (rule split_head_no_sep [OF sep_nonempty])
  have d: "\<not> contains (ascii ''/?'') url \<longrightarrow> canonical_url url = url"
    unfolding canonical_url_def by (simp add: split_head_id)
  have e: "canonical_url (canonical_url url) = canonical_url url"
    using c unfolding canonical_url_def by (simp add: split_head_id)
  from a b c d e show ?thesis by blast
qed

theorem canonical_url_witness:
  "canonical_url (ascii ''https://www.upwork.com/jobs/Build-scraper_~01ab/?referrer_url_path=/nx/find-work/?x'')
     = ascii ''https://www.upwork.com/jobs/Build-scraper_~01ab''
   \<and> canonical_url (canonical_url (ascii ''https://www.upwork.com/jobs/Build-scraper_~01ab/?referrer_url_path=/nx/find-work/?x''))
     = ascii ''https://www.upwork.com/jobs/Build-scraper_~01ab''"
  using canonical_url_strips_query_and_is_idempotent
    [of "ascii ''https://www.upwork.com/jobs/Build-scraper_~01ab/?referrer_url_path=/nx/find-work/?x''"]
  by (simp add: canonical_url_def ascii_def)

section \<open>The notification message\<close>

lemma truncate_description_short:
  "length d \<le> 800 \<Longrightarrow> truncate_description d = d"
  by (simp add: truncate_description_def)

lemma truncate_description_long:
  "length d > 800 \<Longrightarrow> truncate_description d = take 800 d @ ellipsis_literal"
  by (simp add: truncate_description_def)

lemma length_truncate_description_long:
  "length d > 800 \<Longrightarrow> length (truncate_description d) = 803"
  by (simp add: truncate_description_def ellipsis_literal_def)

text \<open>
  C4. A description of more than 800 characters is cut to its first 800 characters and
  one marker is appended; a shorter one is unchanged (the two lemmas above). The marker
  the source appends is not one ellipsis character U+2026 but the three code points
  U+00E2, U+20AC, U+00A6: a description of 900 characters becomes 803 characters long,
  here evaluated on 900 times the letter a.
\<close>

theorem truncated_description_appends_three_code_points:
  "truncate_description (replicate 900 97) = replicate 800 97 @ [226, 8364, 166]
   \<and> length (truncate_description (replicate 900 97)) = 803
   \<and> truncate_description (replicate 900 97) \<noteq> replicate 800 97 @ [8230]
   \<and> last (message_lines f
        \<lparr>job_id = Some (ascii ''1''), job_url = Some (ascii ''https://www.upwork.com/jobs/1''),
         job_title = Some (ascii ''Scraper''), posted_date = NoDate,
         job_description = Some (replicate 900 97), job_tags = Some (ascii ''[]''),
         job_proposals = Some []\<rparr>) = replicate 800 97 @ [226, 8364, 166]"
  by (simp add: truncate_description_def ellipsis_literal_def message_lines_def val_def)

text \<open>
  C8, as the code has it. The message is, joined by line feeds: a separator, the title,
  a separator, the URL, a separator, the short date, a separator, the description
  (cut when longer than 800) and a closing separator, and nothing else. The short date
  is empty when \<^verbatim>\<open>posted_date\<close> is \<^verbatim>\<open>None\<close>, and has the form \<^verbatim>\<open>YYYY-MM-DD HH:MM\<close> (digits
  around \<^verbatim>\<open>-\<close>, \<^verbatim>\<open>-\<close>, a space and \<^verbatim>\<open>:\<close>) when it is a \<^verbatim>\<open>datetime\<close>.
\<close>

theorem format_job_message_layout:
  "format_job_message f j =
     join [10]
       [separator, val (job_title j), separator, val (job_url j), separator,
        short_date f (posted_date j), separator,
        truncate_description (val (job_description j)), separator]
   \<and> short_date f NoDate = []
   \<and> (\<exists>y1 y2 y3 y4 m1 m2 d1 d2 h1 h2 n1 n2.
         y1 < 10 \<and> y2 < 10 \<and> y3 < 10 \<and> y4 < 10 \<and> m1 < 10 \<and> m2 < 10 \<and> d1 < 10 \<and> d2 < 10
         \<and> h1 < 10 \<and> h2 < 10 \<and> n1 < 10 \<and> n2 < 10
         \<and> short_date f (DateTime d) =
             [48 + y1, 48 + y2, 48 + y3, 48 + y4, 45, 48 + m1, 48 + m2, 45, 48 + d1, 48 + d2,
              32, 48 + h1, 48 + h2, 58, 48 + n1, 48 + n2])"
proof -
  have a: "format_job_message f j =
     join [10]
       [separator, val (job_title j), separator, val (job_url j), separator,
        short_date f (posted_date j), separator,
        truncate_description (val (job_description j)), separator]"
    by (simp add: format_job_message_def message_lines_def separator_def ascii_def)
  have b: "short_date f NoDate = []"
    by (simp add: short_date_def)
  have c: "short_date f (DateTime d) =
             [48 + dt_year d div 1000 mod 10, 48 + dt_year d div 100 mod 10,
              48 + dt_year d div 10 mod 10, 48 + dt_year d mod 10, 45,
              48 + dt_month d div 10 mod 10, 48 + dt_month d mod 10, 45,
              48 + dt_day d div 10 mod 10, 48 + dt_day d mod 10, 32,
              48 + dt_hour d div 10 mod 10, 48 + dt_hour d mod 10, 58,
              48 + dt_minute d div 10 mod 10, 48 + dt_minute d mod 10]"
    by (simp add: short_date_def strftime_short_def digits2_def digits4_def ascii_def)
  have m: "\<And>n::nat. n mod 10 < 10" by simp
  show ?thesis
    apply (intro conjI a b)
    apply (rule exI [of _ "dt_year d div 1000 mod 10"])
    apply (rule exI [of _ "dt_year d div 100 mod 10"])
    apply (rule exI [of _ "dt_year d div 10 mod 10"])
    apply (rule exI [of _ "dt_year d mod 10"])
    apply (rule exI [of _ "dt_month d div 10 mod 10"])
    apply (rule exI [of _ "dt_month d mod 10"])
    apply (rule exI [of _ "dt_day d div 10 mod 10"])
    apply (rule exI [of _ "dt_day d mod 10"])
    apply (rule exI [of _ "dt_hour d div 10 mod 10"])
    apply (rule exI [of _ "dt_hour d mod 10"])
    apply (rule exI [of _ "dt_minute d div 10 mod 10"])
    apply (rule exI [of _ "dt_minute d mod 10"])
    apply (intro conjI m c)
    done
qed

theorem format_job_message_layout_witness:
  "format_job_message (\<lambda>s. Inl ValueError) example_job =
     join [10]
       [ascii ''---'', ascii ''Scraper'', ascii ''---'', ascii ''https://www.upwork.com/jobs/1'',
        ascii ''---'', ascii ''2024-03-09 07:05'', ascii ''---'', ascii ''Short text'',
        ascii ''---'']"
  using format_job_message_layout [of "\<lambda>s. Inl ValueError" example_job]
  by (simp add: example_job_def separator_def val_def short_date_def strftime_short_def
      digits2_def digits4_def truncate_description_def ascii_def)

text \<open>
  C8 as stated fails: the message of the example job does not consist of the seven
  lines title, separator, URL, separator, date, separator, description only. It has nine
  lines, the first and the last being separators.
\<close>

theorem format_job_message_extra_lines:
  "format_job_message (\<lambda>s. Inl ValueError) example_job
     \<noteq> join [10]
         [ascii ''Scraper'', ascii ''---'', ascii ''https://www.upwork.com/jobs/1'',
          ascii ''---'', ascii ''2024-03-09 07:05'', ascii ''---'', ascii ''Short text'']
   \<and> length (split_char 10 (format_job_message (\<lambda>s. Inl ValueError) example_job)) = 9
   \<and> hd (split_char 10 (format_job_message (\<lambda>s. Inl ValueError) example_job)) = ascii ''---''
   \<and> last (split_char 10 (format_job_message (\<lambda>s. Inl ValueError) example_job)) = ascii ''---''"
  by (simp add: format_job_message_def message_lines_def example_job_def separator_def val_def
      short_date_def strftime_short_def digits2_def digits4_def truncate_description_def ascii_def)

section \<open>The liveness probe\<close>

text \<open>
  C9. For every session handle, \<^verbatim>\<open>is_driver_alive\<close> returns a boolean and raises nothing:
  \<^verbatim>\<open>True\<close> exactly when the script call returns, \<^verbatim>\<open>False\<close> exactly when the handle is
  missing or the call raises.
\<close>

theorem is_driver_alive_never_raises:
  "(is_driver_alive h = Inr True \<or> is_driver_alive h = Inr False)
   \<and> (is_driver_alive h = Inr True) = (\<exists>d v. h = Some d \<and> execute_script d ''return 1'' = Inr v)
   \<and> (is_driver_alive h = Inr False)
       = (h = None \<or> (\<exists>d e. h = Some d \<and> execute_script d ''return 1'' = Inl e))"
  by (cases h; cases "execute_script (the h) ''return 1''")
     (auto simp: is_driver_alive_def try_except_def)

theorem is_driver_alive_witness:
  "is_driver_alive (Some live_driver) = Inr True
   \<and> is_driver_alive (Some dead_driver) = Inr False
   \<and> is_driver_alive None = Inr False"
  using is_driver_alive_never_raises [of "Some live_driver"]
    is_driver_alive_never_raises [of "Some dead_driver"]
    is_driver_alive_never_raises [of None]
  by (simp add: live_driver_def dead_driver_def)

section \<open>The extraction loops\<close>

lemma strip_blank: "list_all isspace raw \<Longrightarrow> strip raw = []"
proof -
  assume "list_all isspace raw"
  then have h: "dropWhile isspace raw = []" by (simp add: list_all_iff)
  show ?thesis unfolding strip_def h by simp
qed

lemma strip_empty [simp]: "strip [] = []"
  by (simp add: strip_def)

subsection \<open>One iteration of the loose loop\<close>

lemma loose_step_seen: "seen \<subseteq> fst (loose_step lower cfg seen link)"
  by (auto simp: loose_step_def split: sum.splits prod.splits if_splits)

lemma loose_step_Some:
  assumes "loose_step lower cfg seen link = (seen', Some e)"
  shows "e_url e \<notin> seen" and "seen' = insert (e_url e) seen" and "e_title e \<noteq> []"
    and "\<not> banned_in_description lower (getattr_banned cfg) (e_description e)"
  using assms
  by (auto simp: loose_step_def split: sum.splits prod.splits if_splits)

lemma loose_step_None_seen:
  assumes "loose_step lower cfg seen link = (seen', None)"
  shows "seen \<subseteq> seen'"
  using loose_step_seen [of seen lower cfg link] assms by simp

lemma loose_entries_fresh:
  "e \<in> set (loose_entries lower cfg seen links) \<Longrightarrow>
     e_url e \<notin> seen \<and> e_title e \<noteq> []
     \<and> \<not> banned_in_description lower (getattr_banned cfg) (e_description e)"
proof (induction links arbitrary: seen)
  case Nil
  then show ?case by simp
next
  case (Cons link links)
  obtain seen' r where step: "loose_step lower cfg seen link = (seen', r)"
    by (cases "loose_step lower cfg seen link")
  have sub: "seen \<subseteq> seen'" using loose_step_seen [of seen lower cfg link] step by simp
  show ?case
  proof (cases r)
    case None
    then have "e \<in> set (loose_entries lower cfg seen' links)" using Cons.prems step by simp
    then show ?thesis using Cons.IH sub by blast
  next
    case (Some e')
    then consider "e = e'" | "e \<in> set (loose_entries lower cfg seen' links)"
      using Cons.prems step by auto
    then show ?thesis
    proof cases
      case 1
      then show ?thesis using loose_step_Some [of lower cfg seen link seen' e'] step Some by simp
    next
      case 2
      then show ?thesis using Cons.IH sub by blast
    qed
  qed
qed

lemma loose_entries_distinct: "distinct (map e_url (loose_entries lower cfg seen links))"
proof (induction links arbitrary: seen)
  case Nil
  then show ?case by simp
next
  case (Cons link links)
  obtain seen' r where step: "loose_step lower cfg seen link = (seen', r)"
    by (cases "loose_step lower cfg seen link")
  show ?case
  proof (cases r)
    case None
    then show ?thesis using step Cons.IH by simp
  next
    case (Some e)
    have seen': "seen' = insert (e_url e) seen"
      using loose_step_Some(2) step Some by blast
    have "e_url e \<notin> e_url ` set (loose_entries lower cfg seen' links)"
    proof
      assume "e_url e \<in> e_url ` set (loose_entries lower cfg seen' links)"
      then obtain e' where "e' \<in> set (loose_entries lower cfg seen' links)" "e_url e' = e_url e"
        by auto
      then show False using loose_entries_fresh [of e' lower cfg seen' links] seen' by simp
    qed
    then show ?thesis using step Some Cons.IH by simp
  qed
qed

subsection \<open>One iteration of the structured loop\<close>

lemma structured_step_seen: "seen \<subseteq> fst (structured_step lower cfg seen tile)"
  by (auto simp: structured_step_def split: sum.splits prod.splits if_splits)

lemma structured_step_Some:
  assumes "structured_step lower cfg seen tile = (seen', Some e)"
  shows "e_url e \<notin> seen" and "seen' = insert (e_url e) seen" and "e_title e \<noteq> []"
  using assms
  by (auto simp: structured_step_def tile_entry_def split: sum.splits prod.splits if_splits)

lemma structured_entries_fresh:
  "e \<in> set (structured_entries lower cfg seen tiles) \<Longrightarrow> e_url e \<notin> seen \<and> e_title e \<noteq> []"
proof (induction tiles arbitrary: seen)
  case Nil
  then show ?case by simp
next
  case (Cons tile tiles)
  obtain seen' r where step: "structured_step lower cfg seen tile = (seen', r)"
    by (cases "structured_step lower cfg seen tile")
  have sub: "seen \<subseteq> seen'" using structured_step_seen [of seen lower cfg tile] step by simp
  show ?case
  proof (cases r)
    case None
    then have "e \<in> set (structured_entries lower cfg seen' tiles)" using Cons.prems step by simp
    then show ?thesis using Cons.IH sub by blast
  next
    case (Some e')
    then consider "e = e'" | "e \<in> set (structured_entries lower cfg seen' tiles)"
      using Cons.prems step by auto
    then show ?thesis
    proof cases
      case 1
      then show ?thesis
        using structured_step_Some [of lower cfg seen tile seen' e'] step Some by simp
    next
      case 2
      then show ?thesis using Cons.IH sub by blast
    qed
  qed
qed

lemma structured_entries_distinct: "distinct (map e_url (structured_entries lower cfg seen tiles))"
proof (induction tiles arbitrary: seen)
  case Nil
  then show ?case by simp
next
  case (Cons tile tiles)
  obtain seen' r where step: "structured_step lower cfg seen tile = (seen', r)"
    by (cases "structured_step lower cfg seen tile")
  show ?case
  proof (cases r)
    case None
    then show ?thesis using step Cons.IH by simp
  next
    case (Some e)
    have seen': "seen' = insert (e_url e) seen"
      using structured_step_Some(2) step Some by blast
    have "e_url e \<notin> e_url ` set (structured_entries lower cfg seen' tiles)"
    proof
      assume "e_url e \<in> e_url ` set (structured_entries lower cfg seen' tiles)"
      then obtain e' where "e' \<in> set (structured_entries lower cfg seen' tiles)" "e_url e' = e_url e"
        by auto
      then show False using structured_entries_fresh [of e' lower cfg seen' tiles] seen' by simp
    qed
    then show ?thesis using step Some Cons.IH by simp
  qed
qed

lemma distinct_at_most_one:
  "distinct (map f xs) \<Longrightarrow> length (filter (\<lambda>x. f x = u) xs) \<le> Suc 0"
proof (induction xs)
  case Nil
  then show ?case by simp
next
  case (Cons x xs)
  show ?case
  proof (cases "f x = u")
    case True
    then have "u \<notin> f ` set xs" using Cons.prems by auto
    then have "filter (\<lambda>x. f x = u) xs = []" by (auto simp: filter_empty_conv)
    then show ?thesis using True by simp
  next
    case False
    then show ?thesis using Cons by simp
  qed
qed

subsection \<open>Deduplication\<close>

text \<open>
  C6. In the output of a pass, loose or structured, the URLs of the records are pairwise
  different: for every URL \<open>u\<close>, at most one record has it, however many raw entries
  share it as their canonical URL.
\<close>

theorem one_record_per_canonical_url:
  "distinct (map e_url (loose_entries lower cfg {} links))
   \<and> length (filter (\<lambda>e. e_url e = u) (loose_entries lower cfg {} links)) \<le> 1
   \<and> distinct (map e_url (structured_entries lower cfg {} tiles))
   \<and> length (filter (\<lambda>e. e_url e = u) (structured_entries lower cfg {} tiles)) \<le> 1"
  using loose_entries_distinct [of lower cfg "{}" links]
    structured_entries_distinct [of lower cfg "{}" tiles]
    distinct_at_most_one [of e_url "loose_entries lower cfg {} links" u]
    distinct_at_most_one [of e_url "structured_entries lower cfg {} tiles" u]
  by simp

theorem one_record_per_canonical_url_witness:
  "length (filter (\<lambda>e. e_url e = ascii ''https://www.upwork.com/jobs/a'')
       (loose_entries ascii_lower example_config {}
          [anchor (ascii ''https://www.upwork.com/jobs/a/?q=1'') (ascii ''Job A''),
           anchor (ascii ''https://www.upwork.com/jobs/a/?q=2'') (ascii ''Job A again'')])) = 1
   \<and> length (filter (\<lambda>e. e_url e = ascii ''https://www.upwork.com/jobs/a'')
       (structured_entries ascii_lower example_config {}
          [example_tile (ascii ''https://www.upwork.com/jobs/a/?q=1'') (ascii ''Job A'') [] [] [],
           example_tile (ascii ''https://www.upwork.com/jobs/a'') (ascii ''Job A again'') [] [] []])) = 1"
  using one_record_per_canonical_url [of ascii_lower example_config
      "[anchor (ascii ''https://www.upwork.com/jobs/a/?q=1'') (ascii ''Job A''),
        anchor (ascii ''https://www.upwork.com/jobs/a/?q=2'') (ascii ''Job A again'')]"
      "ascii ''https://www.upwork.com/jobs/a''"
      "[example_tile (ascii ''https://www.upwork.com/jobs/a/?q=1'') (ascii ''Job A'') [] [] [],
        example_tile (ascii ''https://www.upwork.com/jobs/a'') (ascii ''Job A again'') [] [] []]"]
  by (simp add: example_config_def anchor_def example_tile_def loose_step_def structured_step_def
      tile_entry_def client_parts_def tile_description_def tile_proposals_def tile_posted_def
      tags_list_def text_or_empty_def compose_description_def rich_fields_def
      banned_in_description_def banned_in_client_def getattr_banned_def denylisted_def
      canonical_url_def val_def strip_def isspace_def ascii_def)

subsection \<open>Empty titles\<close>

lemma loose_entries_skip:
  "\<forall>s. loose_step lower cfg s link = (s, None) \<Longrightarrow>
     loose_entries lower cfg seen (pre @ link # post) = loose_entries lower cfg seen (pre @ post)"
  by (induction pre arbitrary: seen) (auto split: prod.splits option.splits)

lemma structured_entries_skip:
  "\<forall>s. structured_step lower cfg s tile = (s, None) \<Longrightarrow>
     structured_entries lower cfg seen (pre @ tile # post) = structured_entries lower cfg seen (pre @ post)"
  by (induction pre arbitrary: seen) (auto split: prod.splits option.splits)

lemma loose_step_blank:
  "el_text link = Inr raw \<Longrightarrow> list_all isspace raw \<Longrightarrow> loose_step lower cfg s link = (s, None)"
  by (simp add: loose_step_def strip_blank split: sum.splits)

lemma structured_step_blank:
  "el_find_element tile CSS_SELECTOR ''h2.job-tile-title a[data-test*='job-tile-title-link']'' = Inr title_el
   \<Longrightarrow> el_text title_el = Inr raw \<Longrightarrow> list_all isspace raw
   \<Longrightarrow> structured_step lower cfg s tile = (s, None)"
  by (simp add: structured_step_def strip_blank split: sum.splits)

text \<open>
  C7. An anchor, or a tile's title link, whose visible text is empty or consists of
  white space only yields no record in either strategy: the iteration leaves the set of
  seen URLs as it was and appends nothing, so the pass gives what it gives without that
  element; and no record of a pass has an empty title.
\<close>

theorem blank_title_emits_no_record:
  "(el_text link = Inr raw \<and> list_all isspace raw \<longrightarrow>
      loose_step lower cfg seen link = (seen, None)
      \<and> loose_entries lower cfg seen (pre @ link # post) = loose_entries lower cfg seen (pre @ post))
   \<and> (el_find_element tile CSS_SELECTOR ''h2.job-tile-title a[data-test*='job-tile-title-link']''
         = Inr title_el
       \<and> el_text title_el = Inr raw' \<and> list_all isspace raw' \<longrightarrow>
      structured_step lower cfg seen tile = (seen, None)
      \<and> structured_entries lower cfg seen (pre' @ tile # post')
          = structured_entries lower cfg seen (pre' @ post'))
   \<and> (\<forall>e \<in> set (loose_entries lower cfg seen links). e_title e \<noteq> [])
   \<and> (\<forall>e \<in> set (structured_entries lower cfg seen tiles). e_title e \<noteq> [])"
proof (intro conjI impI ballI)
  assume a: "el_text link = Inr raw \<and> list_all isspace raw"
  then have s: "\<forall>s. loose_step lower cfg s link = (s, None)" using loose_step_blank by blast
  then show "loose_step lower cfg seen link = (seen, None)" by blast
  show "loose_entries lower cfg seen (pre @ link # post) = loose_entries lower cfg seen (pre @ post)"
    using s by (rule loose_entries_skip)
next
  assume a: "el_find_element tile CSS_SELECTOR ''h2.job-tile-title a[data-test*='job-tile-title-link']''
         = Inr title_el
       \<and> el_text title_el = Inr raw' \<and> list_all isspace raw'"
  then have s: "\<forall>s. structured_step lower cfg s tile = (s, None)" using structured_step_blank by blast
  then show "structured_step lower cfg seen tile = (seen, None)" by blast
  show "structured_entries lower cfg seen (pre' @ tile # post')
          = structured_entries lower cfg seen (pre' @ post')"
    using s by (rule structured_entries_skip)
next
  fix e assume "e \<in> set (loose_entries lower cfg seen links)"
  then show "e_title e \<noteq> []" using loose_entries_fresh by blast
next
  fix e assume "e \<in> set (structured_entries lower cfg seen tiles)"
  then show "e_title e \<noteq> []" using structured_entries_fresh by blast
qed

theorem blank_title_witness:
  "loose_step ascii_lower example_config {} (anchor (ascii ''https://www.upwork.com/jobs/b'') (ascii ''   ''))
     = ({}, None)
   \<and> loose_entries ascii_lower example_config {}
       [anchor (ascii ''https://www.upwork.com/jobs/a'') (ascii ''Job A''),
        anchor (ascii ''https://www.upwork.com/jobs/b'') (ascii ''   ''),
        anchor (ascii ''https://www.upwork.com/jobs/c'') (ascii ''Job C'')]
     = loose_entries ascii_lower example_config {}
       [anchor (ascii ''https://www.upwork.com/jobs/a'') (ascii ''Job A''),
        anchor (ascii ''https://www.upwork.com/jobs/c'') (ascii ''Job C'')]
   \<and> structured_step ascii_lower example_config {}
        (example_tile (ascii ''https://www.upwork.com/jobs/b'') [] (ascii ''Text'') [] [])
     = ({}, None)
   \<and> structured_entries ascii_lower example_config {}
       [example_tile (ascii ''https://www.upwork.com/jobs/a'') (ascii ''Job A'') [] [] [],
        example_tile (ascii ''https://www.upwork.com/jobs/b'') [] (ascii ''Text'') [] []]
     = structured_entries ascii_lower example_config {}
       [example_tile (ascii ''https://www.upwork.com/jobs/a'') (ascii ''Job A'') [] [] []]"
  using blank_title_emits_no_record
    [of "anchor (ascii ''https://www.upwork.com/jobs/b'') (ascii ''   '')" "ascii ''   ''"
        ascii_lower example_config "{}"
        "[anchor (ascii ''https://www.upwork.com/jobs/a'') (ascii ''Job A'')]"
        "[anchor (ascii ''https://www.upwork.com/jobs/c'') (ascii ''Job C'')]"
        "example_tile (ascii ''https://www.upwork.com/jobs/b'') [] (ascii ''Text'') [] []"
        "anchor (ascii ''https://www.upwork.com/jobs/b'') []" "[]"
        "[example_tile (ascii ''https://www.upwork.com/jobs/a'') (ascii ''Job A'') [] [] []]"
        "[]" "[]" "[]"]
  by (simp add: anchor_def example_tile_def isspace_def ascii_def)

section \<open>Persistence\<close>

lemma update_row_keeps:
  "r_job_id (update_row jid p t r) = r_job_id r"
  "r_job_url (update_row jid p t r) = r_job_url r"
  "r_job_title (update_row jid p t r) = r_job_title r"
  "r_job_description (update_row jid p t r) = r_job_description r"
  "r_posted_date (update_row jid p t r) = r_posted_date r"
  "r_job_tags (update_row jid p t r) = r_job_tags r"
  by (simp_all add: update_row_def)

lemma update_row_other: "r_job_id r \<noteq> jid \<Longrightarrow> update_row jid p t r = r"
  by (simp add: update_row_def)

lemma update_row_hit:
  "r_job_id r = jid \<Longrightarrow>
     r_job_proposals (update_row jid p t r) = p \<and> r_updated_at (update_row jid p t r) = Some t"
  by (simp add: update_row_def)

lemma count_pos: "\<exists>x\<in>set xs. P x \<Longrightarrow> 0 < length (filter P xs)"
  by (induction xs) auto

text \<open>The state in which an iteration ends when the job id is already in the table.\<close>

lemma persist_entry_existing:
  assumes "\<exists>r\<in>set (jobs_table st). r_job_id r = generate_job_id env (e_title entry)"
  shows "final_state (persist_entry env st entry) = st
     \<or> final_state (persist_entry env st entry) = st\<lparr>clock := Suc (clock st)\<rparr>
     \<or> final_state (persist_entry env st entry) =
         st\<lparr>jobs_table := map (update_row (generate_job_id env (e_title entry))
                                 (entry_proposals env entry) (now env (clock st))) (jobs_table st),
            clock := Suc (clock st)\<rparr>
     \<or> final_state (persist_entry env st entry) =
         st\<lparr>jobs_table := map (update_row (generate_job_id env (e_title entry))
                                 (entry_proposals env entry) (now env (clock st))) (jobs_table st),
            clock := Suc (clock st),
            committed := map (update_row (generate_job_id env (e_title entry))
                                 (entry_proposals env entry) (now env (clock st))) (jobs_table st)\<rparr>"
  using count_pos [OF assms]
  by (auto simp: persist_entry_def commit_def final_state_def Let_def)

lemma persist_entry_existing_ok:
  assumes "\<exists>r\<in>set (jobs_table st). r_job_id r = generate_job_id env (e_title entry)"
    and "\<forall>c. \<not> db_raises env c (generate_job_id env (e_title entry))"
  shows "persist_entry env st entry =
         Inr (st\<lparr>jobs_table := map (update_row (generate_job_id env (e_title entry))
                                 (entry_proposals env entry) (now env (clock st))) (jobs_table st),
            clock := Suc (clock st),
            committed := map (update_row (generate_job_id env (e_title entry))
                                 (entry_proposals env entry) (now env (clock st))) (jobs_table st)\<rparr>)"
  using count_pos [OF assms(1)] assms(2)
  by (auto simp: persist_entry_def commit_def Let_def)

text \<open>
  C3. When a row with the entry's job id (a function of its title) is in the table,
  processing the entry sends no notification and leaves the columns \<^verbatim>\<open>job_title\<close>,
  \<^verbatim>\<open>job_url\<close>, \<^verbatim>\<open>job_description\<close> and \<^verbatim>\<open>job_id\<close> of every row as they were; a row is either
  unchanged or differs in \<^verbatim>\<open>job_proposals\<close> and \<^verbatim>\<open>updated_at\<close> only. When the database
  raises nothing, the step returns, and exactly the rows with that job id get the new
  proposals value and the time of the update.
\<close>

theorem existing_job_updates_only_proposals:
  assumes "\<exists>r\<in>set (jobs_table st). r_job_id r = generate_job_id env (e_title entry)"
  shows "outbox (final_state (persist_entry env st entry)) = outbox st
    \<and> map r_job_title (jobs_table (final_state (persist_entry env st entry)))
        = map r_job_title (jobs_table st)
    \<and> map r_job_url (jobs_table (final_state (persist_entry env st entry)))
        = map r_job_url (jobs_table st)
    \<and> map r_job_description (jobs_table (final_state (persist_entry env st entry)))
        = map r_job_description (jobs_table st)
    \<and> map r_job_id (jobs_table (final_state (persist_entry env st entry)))
        = map r_job_id (jobs_table st)
    \<and> (\<forall>i < length (jobs_table st).
          jobs_table (final_state (persist_entry env st entry)) ! i = jobs_table st ! i
          \<or> jobs_table (final_state (persist_entry env st entry)) ! i
             = (jobs_table st ! i)\<lparr>r_job_proposals := entry_proposals env entry,
                                    r_updated_at := Some (now env (clock st))\<rparr>)
    \<and> ((\<forall>c. \<not> db_raises env c (generate_job_id env (e_title entry))) \<longrightarrow>
          persist_entry env st entry = Inr (final_state (persist_entry env st entry))
          \<and> (\<forall>i < length (jobs_table st).
                jobs_table (final_state (persist_entry env st entry)) ! i
                = (if r_job_id (jobs_table st ! i) = generate_job_id env (e_title entry)
                   then (jobs_table st ! i)\<lparr>r_job_proposals := entry_proposals env entry,
                                            r_updated_at := Some (now env (clock st))\<rparr>
                   else jobs_table st ! i)))"
proof -
  let ?f = "final_state (persist_entry env st entry)"
  let ?u = "update_row (generate_job_id env (e_title entry)) (entry_proposals env entry)
              (now env (clock st))"
  have rows: "jobs_table ?f = jobs_table st \<or> jobs_table ?f = map ?u (jobs_table st)"
    and out: "outbox ?f = outbox st"
    using persist_entry_existing [OF assms] by auto
  have keep: "map r_job_title (map ?u (jobs_table st)) = map r_job_title (jobs_table st)"
    "map r_job_url (map ?u (jobs_table st)) = map r_job_url (jobs_table st)"
    "map r_job_description (map ?u (jobs_table st)) = map r_job_description (jobs_table st)"
    "map r_job_id (map ?u (jobs_table st)) = map r_job_id (jobs_table st)"
    by (simp_all add: update_row_keeps comp_def)
  have c1: "map r_job_title (jobs_table ?f) = map r_job_title (jobs_table st)"
    using rows keep by auto
  have c2: "map r_job_url (jobs_table ?f) = map r_job_url (jobs_table st)"
    using rows keep by auto
  have c3: "map r_job_description (jobs_table ?f) = map r_job_description (jobs_table st)"
    using rows keep by auto
  have c4: "map r_job_id (jobs_table ?f) = map r_job_id (jobs_table st)"
    using rows keep by auto
  have c5: "\<forall>i < length (jobs_table st).
          jobs_table ?f ! i = jobs_table st ! i
          \<or> jobs_table ?f ! i
             = (jobs_table st ! i)\<lparr>r_job_proposals := entry_proposals env entry,
                                    r_updated_at := Some (now env (clock st))\<rparr>"
    using rows by (auto simp: update_row_def)
  have c6: "(\<forall>c. \<not> db_raises env c (generate_job_id env (e_title entry))) \<longrightarrow>
          persist_entry env st entry = Inr ?f
          \<and> (\<forall>i < length (jobs_table st).
                jobs_table ?f ! i
                = (if r_job_id (jobs_table st ! i) = generate_job_id env (e_title entry)
                   then (jobs_table st ! i)\<lparr>r_job_proposals := entry_proposals env entry,
                                            r_updated_at := Some (now env (clock st))\<rparr>
                   else jobs_table st ! i))"
  proof
    assume ok: "\<forall>c. \<not> db_raises env c (generate_job_id env (e_title entry))"
    note eq = persist_entry_existing_ok [OF assms ok]
    show "persist_entry env st entry = Inr ?f
          \<and> (\<forall>i < length (jobs_table st).
                jobs_table ?f ! i
                = (if r_job_id (jobs_table st ! i) = generate_job_id env (e_title entry)
                   then (jobs_table st ! i)\<lparr>r_job_proposals := entry_proposals env entry,
                                            r_updated_at := Some (now env (clock st))\<rparr>
                   else jobs_table st ! i))"
      unfolding eq by (simp add: final_state_def update_row_def)
  qed
  from out c1 c2 c3 c4 c5 c6 show ?thesis by blast
qed

theorem existing_job_witness:
  "(\<exists>r\<in>set (jobs_table stored_state). r_job_id r = generate_job_id example_env (e_title reseen_entry))
   \<and> persist_entry example_env stored_state reseen_entry =
     Inr \<lparr>jobs_table =
        [\<lparr>r_job_id = ascii ''job a'', r_job_url = ascii ''https://www.upwork.com/jobs/a'',
          r_job_title = ascii ''Job A'', r_posted_date = NoDate,
          r_job_description = ascii ''First description'', r_job_tags = ascii ''[]'',
          r_job_proposals = ascii ''5 to 10'',
          r_updated_at = Some \<lparr>dt_year = 2024, dt_month = 3, dt_day = 9, dt_hour = 7,
                                dt_minute = 3, dt_second = 0\<rparr>\<rparr>],
      committed =
        [\<lparr>r_job_id = ascii ''job a'', r_job_url = ascii ''https://www.upwork.com/jobs/a'',
          r_job_title = ascii ''Job A'', r_posted_date = NoDate,
          r_job_description = ascii ''First description'', r_job_tags = ascii ''[]'',
          r_job_proposals = ascii ''5 to 10'',
          r_updated_at = Some \<lparr>dt_year = 2024, dt_month = 3, dt_day = 9, dt_hour = 7,
                                dt_minute = 3, dt_second = 0\<rparr>\<rparr>],
      outbox = [], clock = 4\<rparr>"
proof -
  have h: "\<exists>r\<in>set (jobs_table stored_state).
             r_job_id r = generate_job_id example_env (e_title reseen_entry)"
    by (simp add: stored_state_def example_env_def reseen_entry_def ascii_lower_def lower_char_def
        ascii_def)
  show ?thesis
    using h existing_job_updates_only_proposals [OF h]
    by (simp add: stored_state_def example_env_def reseen_entry_def ascii_lower_def lower_char_def
        final_state_def persist_entry_def commit_def update_row_def entry_proposals_def
        strip_def isspace_def ascii_def Let_def)
qed

section \<open>The order of deduplication and filter in the loose loop\<close>

lemma loose_seen_mono: "seen \<subseteq> loose_seen lower cfg seen links"
proof (induction links arbitrary: seen)
  case Nil
  then show ?case by simp
next
  case (Cons link links)
  have "seen \<subseteq> fst (loose_step lower cfg seen link)" by (rule loose_step_seen)
  also have "\<dots> \<subseteq> loose_seen lower cfg (fst (loose_step lower cfg seen link)) links" by (rule Cons.IH)
  finally show ?case by simp
qed

lemma loose_seen_append:
  "loose_seen lower cfg seen (xs @ ys) = loose_seen lower cfg (loose_seen lower cfg seen xs) ys"
  by (induction xs arbitrary: seen) auto

lemma loose_entries_append:
  "loose_entries lower cfg seen (xs @ ys)
     = loose_entries lower cfg seen xs @ loose_entries lower cfg (loose_seen lower cfg seen xs) ys"
  by (induction xs arbitrary: seen) (auto split: prod.splits option.splits)

lemma loose_entries_urls_seen:
  "e \<in> set (loose_entries lower cfg seen links) \<Longrightarrow> e_url e \<in> loose_seen lower cfg seen links"
proof (induction links arbitrary: seen)
  case Nil
  then show ?case by simp
next
  case (Cons link links)
  obtain seen' r where step: "loose_step lower cfg seen link = (seen', r)"
    by (cases "loose_step lower cfg seen link")
  show ?case
  proof (cases "e \<in> set (loose_entries lower cfg seen' links)")
    case True
    then show ?thesis using Cons.IH step by simp
  next
    case False
    then have "r = Some e" using Cons.prems step by (cases r) auto
    then have "e_url e \<in> seen'" using loose_step_Some(2) step by blast
    then show ?thesis using loose_seen_mono [of seen' lower cfg links] step by auto
  qed
qed

lemma loose_step_duplicate:
  "el_get_attribute later ''href'' = Inr h \<Longrightarrow> canonical_url (val h) \<in> seen \<Longrightarrow>
     loose_step lower cfg seen later = (seen, None)"
  by (simp add: loose_step_def split: sum.splits)

lemma loose_step_banned:
  assumes "el_get_attribute link ''href'' = Inr h" "val h \<noteq> []" "\<not> denylisted (val h)"
    "el_text link = Inr raw" "strip raw \<noteq> []" "canonical_url (val h) \<notin> seen"
    "banned_in_description lower (getattr_banned cfg) (fst (rich_fields link (strip raw)))"
  shows "loose_step lower cfg seen link = (insert (canonical_url (val h)) seen, None)"
  using assms by (auto simp: loose_step_def split: prod.splits)

text \<open>
  C10, for whatever function \<^verbatim>\<open>str.lower()\<close> is. In the loose loop the canonical URL of
  an anchor is added to the seen URLs before the banned-locale filter runs. So when an anchor that reaches the filter (its URL not
  seen before) is discarded by it, the URL is in the set afterwards, every later anchor
  of the pass with the same canonical URL yields nothing, and the pass has no record
  with that URL at all.
\<close>

theorem banned_anchor_blocks_later_duplicates:
  assumes "el_get_attribute link ''href'' = Inr h" and "val h \<noteq> []"
    and "\<not> denylisted (val h)" and "el_text link = Inr raw" and "strip raw \<noteq> []"
    and "canonical_url (val h) \<notin> loose_seen lower cfg {} pre"
    and "banned_in_description lower (getattr_banned cfg) (fst (rich_fields link (strip raw)))"
  shows "loose_step lower cfg (loose_seen lower cfg {} pre) link
           = (insert (canonical_url (val h)) (loose_seen lower cfg {} pre), None)
    \<and> (\<forall>mid later rest h'.
          post = mid @ later # rest \<and> el_get_attribute later ''href'' = Inr h'
          \<and> canonical_url (val h') = canonical_url (val h) \<longrightarrow>
          snd (loose_step lower cfg (loose_seen lower cfg {} (pre @ link # mid)) later) = None)
    \<and> (\<forall>e \<in> set (loose_entries lower cfg {} (pre @ link # post)). e_url e \<noteq> canonical_url (val h))"
proof -
  let ?u = "canonical_url (val h)"
  let ?s = "loose_seen lower cfg {} pre"
  have step: "loose_step lower cfg ?s link = (insert ?u ?s, None)"
    using assms by (rule loose_step_banned)
  have later: "\<forall>mid later rest h'.
          post = mid @ later # rest \<and> el_get_attribute later ''href'' = Inr h'
          \<and> canonical_url (val h') = ?u \<longrightarrow>
          snd (loose_step lower cfg (loose_seen lower cfg {} (pre @ link # mid)) later) = None"
  proof (intro allI impI)
    fix mid later rest h'
    assume a: "post = mid @ later # rest \<and> el_get_attribute later ''href'' = Inr h'
          \<and> canonical_url (val h') = ?u"
    have "loose_seen lower cfg {} (pre @ link # mid) = loose_seen lower cfg (insert ?u ?s) mid"
      using step by (simp add: loose_seen_append)
    moreover have "?u \<in> loose_seen lower cfg (insert ?u ?s) mid"
      using loose_seen_mono [of "insert ?u ?s" lower cfg mid] by auto
    ultimately have "canonical_url (val h') \<in> loose_seen lower cfg {} (pre @ link # mid)"
      using a by simp
    then show "snd (loose_step lower cfg (loose_seen lower cfg {} (pre @ link # mid)) later) = None"
      using a loose_step_duplicate by simp
  qed
  have none: "\<forall>e \<in> set (loose_entries lower cfg {} (pre @ link # post)). e_url e \<noteq> ?u"
  proof
    fix e assume "e \<in> set (loose_entries lower cfg {} (pre @ link # post))"
    then consider "e \<in> set (loose_entries lower cfg {} pre)"
      | "e \<in> set (loose_entries lower cfg (insert ?u ?s) post)"
      using step by (auto simp: loose_entries_append)
    then show "e_url e \<noteq> ?u"
    proof cases
      case 1
      then have "e_url e \<in> ?s" by (rule loose_entries_urls_seen)
      then show ?thesis using assms(6) by auto
    next
      case 2
      then have "e_url e \<notin> insert ?u ?s" using loose_entries_fresh by blast
      then show ?thesis by auto
    qed
  qed
  from step later none show ?thesis by blast
qed

theorem banned_anchor_witness:
  "el_get_attribute (anchor_in_div (ascii ''https://www.upwork.com/jobs/b'') (ascii ''Job B'')
       (ascii ''Remote work, INDIA based team'')) ''href''
     = Inr (Some (ascii ''https://www.upwork.com/jobs/b''))
   \<and> banned_in_description ascii_lower (getattr_banned example_config)
       (fst (rich_fields (anchor_in_div (ascii ''https://www.upwork.com/jobs/b'') (ascii ''Job B'')
          (ascii ''Remote work, INDIA based team'')) (strip (ascii ''Job B''))))
   \<and> loose_entries ascii_lower example_config {}
       ([anchor (ascii ''https://www.upwork.com/jobs/a'') (ascii ''Job A'')]
        @ anchor_in_div (ascii ''https://www.upwork.com/jobs/b'') (ascii ''Job B'')
            (ascii ''Remote work, INDIA based team'')
        # [anchor_in_div (ascii ''https://www.upwork.com/jobs/b/?source=feed'') (ascii ''Job B'')
             (ascii ''A fine description'')])
     = [\<lparr>e_url = ascii ''https://www.upwork.com/jobs/a'', e_title = ascii ''Job A'',
         e_description = [], e_proposals = [], e_posted = [], e_tags = []\<rparr>]"
  using banned_anchor_blocks_later_duplicates
    [of "anchor_in_div (ascii ''https://www.upwork.com/jobs/b'') (ascii ''Job B'')
           (ascii ''Remote work, INDIA based team'')"
        "Some (ascii ''https://www.upwork.com/jobs/b'')" "ascii ''Job B''" ascii_lower example_config
        "[anchor (ascii ''https://www.upwork.com/jobs/a'') (ascii ''Job A'')]"
        "[anchor_in_div (ascii ''https://www.upwork.com/jobs/b/?source=feed'') (ascii ''Job B'')
             (ascii ''A fine description'')]"]
  by (simp add: example_config_def anchor_def anchor_in_div_def leaf_def loose_step_def
      rich_fields_def text_or_empty_def banned_in_description_def getattr_banned_def
      denylisted_def canonical_url_def val_def strip_def isspace_def ascii_lower_def lower_char_def
      ascii_def)

section \<open>The banned-locale filter\<close>

subsection \<open>What the filters discard\<close>

lemma loose_step_banned_None:
  "el_text link = Inr raw \<Longrightarrow>
   banned_in_description lower (getattr_banned cfg) (fst (rich_fields link (strip raw))) \<Longrightarrow>
   snd (loose_step lower cfg seen link) = None"
  by (auto simp: loose_step_def split: sum.splits prod.splits)

lemma banned_in_client_Nil [simp]: "\<not> banned_in_client lower banned_list []"
  by (induction banned_list) (auto simp: banned_in_client_def)

lemma tile_entry_Some:
  "tile_entry lower cfg tile href title = Some e \<Longrightarrow>
     \<not> banned_in_description lower (getattr_banned cfg) (tile_description tile)
     \<and> \<not> banned_in_client lower (getattr_banned cfg) (client_parts tile)"
  by (cases "client_parts tile = []") (auto simp: tile_entry_def split: if_splits)

lemma structured_step_banned_None:
  "banned_in_description lower (getattr_banned cfg) (tile_description tile)
   \<or> banned_in_client lower (getattr_banned cfg) (client_parts tile) \<Longrightarrow>
   snd (structured_step lower cfg seen tile) = None"
proof -
  assume b: "banned_in_description lower (getattr_banned cfg) (tile_description tile)
   \<or> banned_in_client lower (getattr_banned cfg) (client_parts tile)"
  have "\<And>href title. tile_entry lower cfg tile href title = None"
  proof -
    fix href title
    show "tile_entry lower cfg tile href title = None"
      using b tile_entry_Some [of lower cfg tile href title]
      by (cases "tile_entry lower cfg tile href title") auto
  qed
  then show ?thesis
    by (auto simp: structured_step_def split: sum.splits)
qed

lemma structured_step_origin:
  "structured_step lower cfg seen tile = (seen', Some e) \<Longrightarrow>
     \<exists>href title. tile_entry lower cfg tile href title = Some e"
  by (auto simp: structured_step_def split: sum.splits if_splits)

lemma structured_entries_origin:
  "e \<in> set (structured_entries lower cfg seen tiles) \<Longrightarrow>
     \<exists>tile\<in>set tiles. \<exists>href title. tile_entry lower cfg tile href title = Some e"
proof (induction tiles arbitrary: seen)
  case Nil
  then show ?case by simp
next
  case (Cons tile tiles)
  obtain seen' r where step: "structured_step lower cfg seen tile = (seen', r)"
    by (cases "structured_step lower cfg seen tile")
  show ?case
  proof (cases "e \<in> set (structured_entries lower cfg seen' tiles)")
    case True
    then show ?thesis using Cons.IH by auto
  next
    case False
    then have "r = Some e" using Cons.prems step by (cases r) auto
    then show ?thesis using structured_step_origin step by fastforce
  qed
qed

subsection \<open>What persistence writes and sends\<close>

lemma final_state_Cons:
  "final_state (persist_entries env st (e # es)) =
     (case persist_entry env st e of
        Inl x \<Rightarrow> final_state (persist_entry env st e)
      | Inr st' \<Rightarrow> final_state (persist_entries env st' es))"
  by (auto simp: final_state_def split: sum.splits)

lemma persist_entry_outbox:
  "outbox (final_state (persist_entry env st e)) = outbox st
   \<or> outbox (final_state (persist_entry env st e))
      = outbox st @ [format_job_message (py_fromisoformat env) (entry_job env e)]"
  by (auto simp: persist_entry_def commit_def notify_new_job_def final_state_def Let_def)

lemma persist_entry_rows:
  "jobs_table (final_state (persist_entry env st e)) = jobs_table st
   \<or> jobs_table (final_state (persist_entry env st e))
      = map (update_row (generate_job_id env (e_title e)) (entry_proposals env e)
               (now env (clock st))) (jobs_table st)
   \<or> jobs_table (final_state (persist_entry env st e)) = jobs_table st @ [entry_row env e]"
  by (auto simp: persist_entry_def commit_def notify_new_job_def final_state_def Let_def)

lemma final_state_Inr: "persist_entry env st e = Inr st' \<Longrightarrow> final_state (persist_entry env st e) = st'"
  by (simp add: final_state_def)

lemma persist_entries_outbox:
  "set (outbox (final_state (persist_entries env st entries)))
     \<subseteq> set (outbox st)
       \<union> (\<lambda>e. format_job_message (py_fromisoformat env) (entry_job env e)) ` set entries"
proof (induction entries arbitrary: st)
  case Nil
  then show ?case by (simp add: final_state_def)
next
  case (Cons e es)
  have one: "set (outbox (final_state (persist_entry env st e)))
     \<subseteq> set (outbox st) \<union> {format_job_message (py_fromisoformat env) (entry_job env e)}"
    using persist_entry_outbox [of env st e] by auto
  show ?case
  proof (cases "persist_entry env st e")
    case (Inl x)
    then show ?thesis using one by (auto simp: final_state_Cons)
  next
    case (Inr st')
    have "set (outbox st')
      \<subseteq> set (outbox st) \<union> {format_job_message (py_fromisoformat env) (entry_job env e)}"
      using one final_state_Inr [OF Inr] by simp
    then show ?thesis using Cons.IH [of st'] Inr by (auto simp: final_state_Cons)
  qed
qed

lemma persist_entry_keys:
  fixes env :: env
  defines "K \<equiv> (\<lambda>r. (r_job_id r, r_job_url r, r_job_title r, r_job_description r))"
    and "E \<equiv> (\<lambda>e. (generate_job_id env (e_title e), e_url e, e_title e, e_description e))"
  shows "K ` set (jobs_table (final_state (persist_entry env st e)))
           \<subseteq> K ` set (jobs_table st) \<union> {E e}"
proof -
  let ?u = "update_row (generate_job_id env (e_title e)) (entry_proposals env e)
               (now env (clock st))"
  let ?F = "final_state (persist_entry env st e)"
  have kk: "\<And>r. K (?u r) = K r"
    by (simp add: K_def update_row_keeps)
  have ku: "K ` set (map ?u (jobs_table st)) = K ` set (jobs_table st)"
  proof -
    have "K ` set (map ?u (jobs_table st)) = (\<lambda>r. K (?u r)) ` set (jobs_table st)"
      by (simp only: set_map image_image)
    then show ?thesis by (simp only: kk)
  qed
  have ke: "K (entry_row env e) = E e"
    by (simp add: K_def E_def entry_row_def)
  consider (same) "jobs_table ?F = jobs_table st"
    | (updated) "jobs_table ?F = map ?u (jobs_table st)"
    | (inserted) "jobs_table ?F = jobs_table st @ [entry_row env e]"
    using persist_entry_rows [of env st e] by blast
  then show ?thesis
  proof cases
    case same
    then show ?thesis by (simp only: same) blast
  next
    case updated
    show ?thesis by (simp only: updated ku) blast
  next
    case inserted
    have "K ` set (jobs_table st @ [entry_row env e])
        = K ` set (jobs_table st) \<union> {K (entry_row env e)}"
      by auto
    then show ?thesis by (simp only: inserted ke)
  qed
qed

lemma persist_entries_keys:
  fixes env :: env
  defines "K \<equiv> (\<lambda>r. (r_job_id r, r_job_url r, r_job_title r, r_job_description r))"
    and "E \<equiv> (\<lambda>e. (generate_job_id env (e_title e), e_url e, e_title e, e_description e))"
  shows "K ` set (jobs_table (final_state (persist_entries env st entries)))
           \<subseteq> K ` set (jobs_table st) \<union> E ` set entries"
proof (induction entries arbitrary: st)
  case Nil
  then show ?case by (simp add: final_state_def)
next
  case (Cons e es)
  have one: "K ` set (jobs_table (final_state (persist_entry env st e)))
           \<subseteq> K ` set (jobs_table st) \<union> {E e}"
    unfolding K_def E_def by (rule persist_entry_keys)
  have split: "E ` set (e # es) = {E e} \<union> E ` set es" by simp
  show ?case
  proof (cases "persist_entry env st e")
    case (Inl x)
    have f: "final_state (persist_entries env st (e # es)) = final_state (persist_entry env st e)"
      using Inl by (simp add: final_state_Cons)
    have "K ` set (jobs_table st) \<union> {E e} \<subseteq> K ` set (jobs_table st) \<union> E ` set (e # es)"
      unfolding split by blast
    with one show ?thesis unfolding f by (rule subset_trans)
  next
    case (Inr st')
    have f: "final_state (persist_entries env st (e # es))
               = final_state (persist_entries env st' es)"
      using Inr by (simp add: final_state_Cons)
    have a: "K ` set (jobs_table st') \<subseteq> K ` set (jobs_table st) \<union> {E e}"
      using one final_state_Inr [OF Inr] by simp
    have b: "K ` set (jobs_table (final_state (persist_entries env st' es)))
           \<subseteq> K ` set (jobs_table st') \<union> E ` set es"
      by (rule Cons.IH)
    have c: "K ` set (jobs_table st') \<union> E ` set es
           \<subseteq> K ` set (jobs_table st) \<union> E ` set (e # es)"
      unfolding split using a by blast
    from b c show ?thesis unfolding f by (rule subset_trans)
  qed
qed

subsection \<open>Unfolding the examples\<close>

lemmas extraction_defs =
  example_config_def anchor_def anchor_in_div_def leaf_def example_tile_def loose_step_def
  structured_step_def tile_entry_def client_parts_def payment_part_def rating_part_def
  spent_part_def location_part_def location_prefixes_def last_line_def tile_description_def
  tile_proposals_def tile_posted_def tags_list_def text_or_empty_def compose_description_def
  rich_fields_def banned_in_description_def banned_in_client_def getattr_banned_def
  denylisted_def canonical_url_def val_def strip_def isspace_def ascii_lower_def lower_char_def
  ascii_def

lemmas persistence_defs =
  example_env_def empty_state_def persist_entry_def commit_def notify_new_job_def
  final_state_def entry_row_def entry_job_def entry_proposals_def entry_posted_date_def
  update_row_def Let_def

text \<open>
  C1, as the code has it, for whatever function \<^verbatim>\<open>str.lower()\<close> is. In the loose strategy
  an anchor whose description text is not empty and, lowered, contains a lowered banned
  term yields no record, and no record of a pass has such a description. In the structured strategy a tile whose description text
  is such, or one of whose client parts contains a banned term, yields no record, and
  every record of a pass comes from a tile that passes both filters. The filters read
  the description text and the client parts, not the composed description. Persistence
  sends only messages of the entries it is given and holds only rows it held before or
  rows of those entries, so what extraction discards is neither stored nor notified.
\<close>

theorem banned_entries_are_discarded:
  "(el_text link = Inr raw
      \<and> banned_in_description lower (getattr_banned cfg) (fst (rich_fields link (strip raw)))
      \<longrightarrow> snd (loose_step lower cfg seen link) = None)
   \<and> (\<forall>e \<in> set (loose_entries lower cfg seen links).
         \<not> banned_in_description lower (getattr_banned cfg) (e_description e))
   \<and> (banned_in_description lower (getattr_banned cfg) (tile_description tile)
       \<or> banned_in_client lower (getattr_banned cfg) (client_parts tile)
      \<longrightarrow> snd (structured_step lower cfg seen tile) = None)
   \<and> (\<forall>e \<in> set (structured_entries lower cfg seen tiles).
         \<exists>t \<in> set tiles.
           (\<exists>href title. tile_entry lower cfg t href title = Some e)
           \<and> \<not> banned_in_description lower (getattr_banned cfg) (tile_description t)
           \<and> \<not> banned_in_client lower (getattr_banned cfg) (client_parts t))
   \<and> set (outbox (final_state (persist_entries env st entries)))
       \<subseteq> set (outbox st)
         \<union> (\<lambda>e. format_job_message (py_fromisoformat env) (entry_job env e)) ` set entries
   \<and> (\<lambda>r. (r_job_id r, r_job_url r, r_job_title r, r_job_description r))
         ` set (jobs_table (final_state (persist_entries env st entries)))
       \<subseteq> (\<lambda>r. (r_job_id r, r_job_url r, r_job_title r, r_job_description r))
           ` set (jobs_table st)
         \<union> (\<lambda>e. (generate_job_id env (e_title e), e_url e, e_title e, e_description e))
             ` set entries"
proof -
  have a: "el_text link = Inr raw
      \<and> banned_in_description lower (getattr_banned cfg) (fst (rich_fields link (strip raw)))
      \<longrightarrow> snd (loose_step lower cfg seen link) = None"
    using loose_step_banned_None by blast
  have b: "\<forall>e \<in> set (loose_entries lower cfg seen links).
         \<not> banned_in_description lower (getattr_banned cfg) (e_description e)"
    using loose_entries_fresh by blast
  have c: "banned_in_description lower (getattr_banned cfg) (tile_description tile)
       \<or> banned_in_client lower (getattr_banned cfg) (client_parts tile)
      \<longrightarrow> snd (structured_step lower cfg seen tile) = None"
    using structured_step_banned_None by blast
  have d: "\<forall>e \<in> set (structured_entries lower cfg seen tiles).
         \<exists>t \<in> set tiles.
           (\<exists>href title. tile_entry lower cfg t href title = Some e)
           \<and> \<not> banned_in_description lower (getattr_banned cfg) (tile_description t)
           \<and> \<not> banned_in_client lower (getattr_banned cfg) (client_parts t)"
  proof
    fix e assume "e \<in> set (structured_entries lower cfg seen tiles)"
    then obtain t href title where t: "t \<in> set tiles" "tile_entry lower cfg t href title = Some e"
      using structured_entries_origin by blast
    then show "\<exists>t \<in> set tiles.
           (\<exists>href title. tile_entry lower cfg t href title = Some e)
           \<and> \<not> banned_in_description lower (getattr_banned cfg) (tile_description t)
           \<and> \<not> banned_in_client lower (getattr_banned cfg) (client_parts t)"
      using tile_entry_Some [OF t(2)] by blast
  qed
  note e = persist_entries_outbox [of env st entries]
  note f = persist_entries_keys [of env st entries]
  from a b c d e f show ?thesis by (intro conjI)
qed

theorem banned_entries_witness:
  "banned_in_description ascii_lower (getattr_banned example_config)
     (fst (rich_fields banned_anchor (strip (ascii ''Job B''))))
   \<and> snd (loose_step ascii_lower example_config {} banned_anchor) = None
   \<and> banned_in_description ascii_lower (getattr_banned example_config)
       (tile_description banned_tile)
   \<and> snd (structured_step ascii_lower example_config {} banned_tile) = None
   \<and> banned_in_client ascii_lower (getattr_banned example_config)
       (client_parts client_banned_tile)
   \<and> snd (structured_step ascii_lower example_config {} client_banned_tile) = None
   \<and> outbox (final_state (persist_entries example_env empty_state
        (structured_entries ascii_lower example_config {} [banned_tile, client_banned_tile]))) = []
   \<and> jobs_table (final_state (persist_entries example_env empty_state
        (structured_entries ascii_lower example_config {} [banned_tile, client_banned_tile]))) = []"
proof -
  have a: "banned_in_description ascii_lower (getattr_banned example_config)
     (fst (rich_fields banned_anchor (strip (ascii ''Job B''))))"
    by (simp add: banned_anchor_def extraction_defs)
  have t: "el_text banned_anchor = Inr (ascii ''Job B'')"
    by (simp add: banned_anchor_def anchor_in_div_def)
  have b: "banned_in_description ascii_lower (getattr_banned example_config)
       (tile_description banned_tile)"
    by (simp add: banned_tile_def extraction_defs)
  have c: "banned_in_client ascii_lower (getattr_banned example_config)
       (client_parts client_banned_tile)"
    by (simp add: client_banned_tile_def extraction_defs)
  note t1 = banned_entries_are_discarded
    [where link = banned_anchor and raw = "ascii ''Job B''" and lower = ascii_lower
       and cfg = example_config and seen = "{}" and tile = banned_tile]
  note t2 = banned_entries_are_discarded
    [where lower = ascii_lower and cfg = example_config and seen = "{}"
       and tile = client_banned_tile]
  have a': "snd (loose_step ascii_lower example_config {} banned_anchor) = None"
    using t1 [THEN conjunct1] a t by simp
  have b': "snd (structured_step ascii_lower example_config {} banned_tile) = None"
    using t1 [THEN conjunct2, THEN conjunct2, THEN conjunct1] b by simp
  have c': "snd (structured_step ascii_lower example_config {} client_banned_tile) = None"
    using t2 [THEN conjunct2, THEN conjunct2, THEN conjunct1] c by simp
  have none: "structured_entries ascii_lower example_config {} [banned_tile, client_banned_tile]
      = []"
    by (simp add: banned_tile_def client_banned_tile_def extraction_defs)
  have d: "outbox (final_state (persist_entries example_env empty_state
        (structured_entries ascii_lower example_config {} [banned_tile, client_banned_tile]))) = []"
    unfolding none by (simp add: final_state_def empty_state_def)
  have e: "jobs_table (final_state (persist_entries example_env empty_state
        (structured_entries ascii_lower example_config {} [banned_tile, client_banned_tile]))) = []"
    unfolding none by (simp add: final_state_def empty_state_def)
  from a a' b b' c c' d e show ?thesis by (intro conjI)
qed

text \<open>
  C1 as stated fails in the structured strategy: the composed description also holds
  the proposals line, which no filter reads. A tile whose proposals text mentions a
  banned term gives a record whose composed description contains the term; the record is
  stored and a notification is sent.
\<close>

theorem banned_term_in_proposals_line_is_kept:
  "structured_entries ascii_lower example_config {} [proposals_tile]
     = [\<lparr>e_url = ascii ''https://www.upwork.com/jobs/d'', e_title = ascii ''Job D'',
         e_description =
           ascii ''Proposals: 5 to 10 in India'' @ [10] @ ascii ''-'' @ [10] @ ascii ''Team work'',
         e_proposals = ascii ''5 to 10 in India'', e_posted = [], e_tags = []\<rparr>]
   \<and> list_ex
       (\<lambda>bc. contains (ascii_lower bc)
          (ascii_lower (ascii ''Proposals: 5 to 10 in India'' @ [10] @ ascii ''-'' @ [10] @ ascii ''Team work'')))
       (getattr_banned example_config)
   \<and> length (outbox (final_state (persist_entries example_env empty_state
        (structured_entries ascii_lower example_config {} [proposals_tile])))) = 1
   \<and> map r_job_description (jobs_table (final_state (persist_entries example_env empty_state
        (structured_entries ascii_lower example_config {} [proposals_tile]))))
     = [ascii ''Proposals: 5 to 10 in India'' @ [10] @ ascii ''-'' @ [10] @ ascii ''Team work'']"
  by (simp add: proposals_tile_def extraction_defs persistence_defs)

section \<open>Exceptions inside one job\<close>




lemma structured_seen_append:
  "structured_seen lower cfg seen (xs @ ys)
     = structured_seen lower cfg (structured_seen lower cfg seen xs) ys"
  by (induction xs arbitrary: seen) auto





lemma banned_in_description_Nil [simp]: "\<not> banned_in_description lower banned_list []"
  by (simp add: banned_in_description_def)








end
